theory Spec2Isabelle
  imports Main "HOL-Library.Sublist"
begin

section \<open>Values, exceptions and the outside world\<close>

text \<open>
  The module \<^verbatim>\<open>espn.py\<close> is dynamically typed: the constructor of \<^verbatim>\<open>Qbr\<close> accepts
  any object for \<^verbatim>\<open>years\<close> and \<^verbatim>\<open>weeks\<close>, and \<^verbatim>\<open>load_qbr\<close> overwrites the fields
  \<^verbatim>\<open>season_type\<close>, \<^verbatim>\<open>years\<close> and \<^verbatim>\<open>weeks\<close> with values of another type.
  The values that can be stored in these fields are modelled as atoms (\<^verbatim>\<open>None\<close>,
  \<^verbatim>\<open>bool\<close>, \<^verbatim>\<open>int\<close>, \<^verbatim>\<open>str\<close>) and flat lists of atoms.  Python's \<^verbatim>\<open>int\<close> is
  unbounded, hence \<^typ>\<open>int\<close>.  A character of a string is one code point below 256.
  Of the floats only \<^verbatim>\<open>nan\<close> is modelled, the marker that pandas puts into a cell
  without a value.
\<close>

datatype atom = ANone | ABool bool | AInt int | AStr string | ANaN

datatype pyval = Atom atom | PList "atom list"

text \<open>
  The exception classes that the \<^verbatim>\<open>except\<close> clauses of the module tell apart, the
  \<^verbatim>\<open>UnboundLocalError\<close> of reading a local variable that was never assigned, and one
  constructor for every other class (such as \<^verbatim>\<open>urllib.error.HTTPError\<close>).
\<close>

datatype exn = ImportError | TypeError | ValueError | UnboundLocalError | OtherError

text \<open>
  A \<^verbatim>\<open>DataFrame\<close> has its column labels, in order and possibly with repetitions, and
  its rows, each with one cell per column.  The rows are numbered from 0, as
  \<^verbatim>\<open>pd.read_html\<close> and \<^verbatim>\<open>ignore_index=True\<close> number them.
\<close>

datatype table = DataFrame (columns: "string list") (rows: "atom list list")

text \<open>What the loaders hand back: a \<^verbatim>\<open>DataFrame\<close>, or the empty list \<^verbatim>\<open>[]\<close>.\<close>

datatype dataset = Frame table | EmptyList

text \<open>
  The world outside the object: the lines written by \<^verbatim>\<open>print\<close>, and the addresses
  handed to \<^verbatim>\<open>pd.read_html\<close>, both in order.
\<close>

record world =
  out :: "string list"
  requests :: "string list"

text \<open>
  \<^verbatim>\<open>pd.read_html\<close> is a parameter of the model: for an address it returns the list
  of tables of that page or raises.
\<close>

type_synonym fetch = "string \<Rightarrow> exn + table list"

definition print :: "string \<Rightarrow> world \<Rightarrow> world" where
  "print s w = w\<lparr>out := out w @ [s]\<rparr>"

definition read_html :: "fetch \<Rightarrow> string \<Rightarrow> world \<Rightarrow> (exn + table list) \<times> world" where
  "read_html fetch url w = (fetch url, w\<lparr>requests := requests w @ [url]\<rparr>)"

section \<open>Built-in operations of Python\<close>

text \<open>\<^verbatim>\<open>str.lower\<close> and \<^verbatim>\<open>str.strip\<close> on code points below 256.\<close>

definition py_lower_char :: "char \<Rightarrow> char" where
  "py_lower_char c =
     (let n = (of_char c :: nat)
      in if (65 \<le> n \<and> n \<le> 90) \<or> (192 \<le> n \<and> n \<le> 222 \<and> n \<noteq> 215)
         then char_of (n + 32) else c)"

definition py_isspace :: "char \<Rightarrow> bool" where
  "py_isspace c =
     (let n = (of_char c :: nat)
      in (9 \<le> n \<and> n \<le> 13) \<or> (28 \<le> n \<and> n \<le> 32) \<or> n = 133 \<or> n = 160)"

definition py_lower :: "string \<Rightarrow> string" where
  "py_lower s = map py_lower_char s"

definition py_strip :: "string \<Rightarrow> string" where
  "py_strip s = rev (dropWhile py_isspace (rev (dropWhile py_isspace s)))"

text \<open>\<^verbatim>\<open>isinstance(x, int)\<close>: \<^verbatim>\<open>bool\<close> is a subclass of \<^verbatim>\<open>int\<close>.\<close>

fun isinstance_int :: "atom \<Rightarrow> bool" where
  "isinstance_int (AInt n) = True"
| "isinstance_int (ABool b) = True"
| "isinstance_int ANone = False"
| "isinstance_int (AStr s) = False"
| "isinstance_int ANaN = False"

text \<open>\<^verbatim>\<open>x == k\<close> for an integer literal \<^verbatim>\<open>k\<close>: \<^verbatim>\<open>True\<close> equals 1 and \<^verbatim>\<open>False\<close> equals 0.\<close>

fun py_eq_int :: "atom \<Rightarrow> int \<Rightarrow> bool" where
  "py_eq_int (AInt n) k = (n = k)"
| "py_eq_int (ABool b) k = ((if b then 1 else 0) = k)"
| "py_eq_int ANone k = False"
| "py_eq_int (AStr s) k = False"
| "py_eq_int ANaN k = False"

text \<open>
  \<^verbatim>\<open>iter(x)\<close> as a \<^verbatim>\<open>for\<close> statement calls it: a list gives its elements, a string
  its characters, and \<^verbatim>\<open>None\<close>, a \<^verbatim>\<open>bool\<close>, an \<^verbatim>\<open>int\<close> or a \<^verbatim>\<open>float\<close> raises
  \<^verbatim>\<open>TypeError\<close>.
\<close>

fun py_iter :: "pyval \<Rightarrow> exn + atom list" where
  "py_iter (PList xs) = Inr xs"
| "py_iter (Atom (AStr s)) = Inr (map (\<lambda>c. AStr [c]) s)"
| "py_iter (Atom a) = Inl TypeError"

text \<open>\<^verbatim>\<open>str(x)\<close>, which a replacement field of an f-string applies.\<close>

fun str_nat :: "nat \<Rightarrow> string" where
  "str_nat n =
     (if n < 10 then [char_of (48 + n)]
      else str_nat (n div 10) @ [char_of (48 + n mod 10)])"

declare str_nat.simps [simp del]

definition str_int :: "int \<Rightarrow> string" where
  "str_int i = (if i < 0 then CHR ''-'' # str_nat (nat (- i)) else str_nat (nat i))"

fun py_str :: "atom \<Rightarrow> string" where
  "py_str ANone = ''None''"
| "py_str (ABool b) = (if b then ''True'' else ''False'')"
| "py_str (AInt i) = str_int i"
| "py_str (AStr s) = s"
| "py_str ANaN = ''nan''"

section \<open>The operations of pandas that the module calls\<close>

text \<open>
  \<^verbatim>\<open>pd.concat(dfs, axis=1)\<close> binds tables side by side: the labels of all tables in
  order, repeated labels kept, and row \<open>i\<close> of the result made of the rows \<open>i\<close> of
  the tables; a table with fewer rows contributes \<^verbatim>\<open>nan\<close> cells.  It raises
  \<^verbatim>\<open>ValueError\<close> (\<^verbatim>\<open>No objects to concatenate\<close>) on an empty list.  An integer that
  pandas would show as a float of the same value after such a fill is kept as it is.
\<close>

fun bind_rows :: "nat \<Rightarrow> nat \<Rightarrow> atom list list \<Rightarrow> atom list list \<Rightarrow> atom list list" where
  "bind_rows m n [] [] = []"
| "bind_rows m n (x # xs) [] = (x @ replicate n ANaN) # bind_rows m n xs []"
| "bind_rows m n [] (y # ys) = (replicate m ANaN @ y) # bind_rows m n [] ys"
| "bind_rows m n (x # xs) (y # ys) = (x @ y) # bind_rows m n xs ys"

definition bind_columns :: "table \<Rightarrow> table \<Rightarrow> table" where
  "bind_columns a b =
     DataFrame (columns a @ columns b)
       (bind_rows (length (columns a)) (length (columns b)) (rows a) (rows b))"

fun pd_concat_axis1 :: "table list \<Rightarrow> exn + table" where
  "pd_concat_axis1 [] = Inl ValueError"
| "pd_concat_axis1 (t # ts) = Inr (foldl bind_columns t ts)"

text \<open>
  \<^verbatim>\<open>pd.concat(df, ignore_index=True)\<close> stacks the tables and renumbers the rows.  It
  raises \<^verbatim>\<open>ValueError\<close> on an empty list.  Tables with the same labels are stacked as
  they are.  Otherwise the result has every label once, in the order of first
  appearance, each row gets its cells by label and \<^verbatim>\<open>nan\<close> where its table has none;
  this needs tables without repeated labels, and with one pandas raises
  \<^verbatim>\<open>InvalidIndexError\<close>, which is no \<^verbatim>\<open>ValueError\<close>.  Here too the cells keep
  their values as they are.
\<close>

definition union_labels :: "string list \<Rightarrow> string list" where
  "union_labels ls = rev (remdups (rev ls))"

definition cell_of :: "string list \<Rightarrow> atom list \<Rightarrow> string \<Rightarrow> atom" where
  "cell_of cols r label = (case map_of (zip cols r) label of Some c \<Rightarrow> c | None \<Rightarrow> ANaN)"

definition reindex :: "string list \<Rightarrow> string list \<Rightarrow> atom list \<Rightarrow> atom list" where
  "reindex cols new r = map (cell_of cols r) new"

fun pd_concat_ignore_index :: "table list \<Rightarrow> exn + table" where
  "pd_concat_ignore_index [] = Inl ValueError"
| "pd_concat_ignore_index (t # ts) =
     (if list_all (\<lambda>u. columns u = columns t) ts
      then Inr (DataFrame (columns t) (concat (map rows (t # ts))))
      else if list_ex (\<lambda>u. \<not> distinct (columns u)) (t # ts) then Inl OtherError
      else (let new = union_labels (concat (map columns (t # ts)))
            in Inr (DataFrame new
                 (concat (map (\<lambda>u. map (reindex (columns u) new) (rows u)) (t # ts))))))"

text \<open>
  \<^verbatim>\<open>df[label] = value\<close> for one value: every column with the label is overwritten; when
  there is none, a new column is appended.
\<close>

definition set_column :: "string \<Rightarrow> atom \<Rightarrow> table \<Rightarrow> table" where
  "set_column label v t =
     (if label \<in> set (columns t)
      then DataFrame (columns t)
             (map (\<lambda>r. map (\<lambda>(l, c). if l = label then v else c) (zip (columns t) r)) (rows t))
      else DataFrame (columns t @ [label]) (map (\<lambda>r. r @ [v]) (rows t)))"

text \<open>
  What \<^verbatim>\<open>for x in df[label]\<close> runs through.  With the label on one column,
  \<^verbatim>\<open>df[label]\<close> is that column and the loop sees its cells.  With the label on several
  columns, \<^verbatim>\<open>df[label]\<close> is a \<^verbatim>\<open>DataFrame\<close> of these columns, and iterating over a
  \<^verbatim>\<open>DataFrame\<close> gives its column labels: the label, once per column.  Without the
  label, \<^verbatim>\<open>df[label]\<close> raises \<^verbatim>\<open>KeyError\<close>.
\<close>

definition iter_column :: "string \<Rightarrow> table \<Rightarrow> exn + atom list" where
  "iter_column label t =
     (let k = count_list (columns t) label
      in if k = 0 then Inl OtherError
         else if k = 1 then Inr (map (\<lambda>r. cell_of (columns t) r label) (rows t))
         else Inr (replicate k (AStr label)))"

text \<open>
  \<^verbatim>\<open>df[label] = values\<close> for a list, as pandas 1.3 and later do it.  When the label is
  on several columns and the list has one value per such column, each of these columns
  is filled with its value.  Otherwise the list is one value per row: a table without
  rows first gets as many rows of \<^verbatim>\<open>nan\<close> as the list is long, a list of another
  length than the number of rows raises \<^verbatim>\<open>ValueError\<close>, and every column with the
  label (or a new column) receives the list.
\<close>

fun spread :: "string \<Rightarrow> atom list \<Rightarrow> (string \<times> atom) list \<Rightarrow> atom list" where
  "spread label vs [] = []"
| "spread label [] ((l, c) # r) = c # spread label [] r"
| "spread label (v # vs) ((l, c) # r) =
     (if l = label then v # spread label vs r else c # spread label (v # vs) r)"

definition set_column_list :: "string \<Rightarrow> atom list \<Rightarrow> table \<Rightarrow> exn + table" where
  "set_column_list label vs t =
     (let k = count_list (columns t) label
      in if 1 < k \<and> k = length vs
         then Inr (DataFrame (columns t) (map (\<lambda>r. spread label vs (zip (columns t) r)) (rows t)))
         else
           (let rs = (if rows t = [] \<and> vs \<noteq> []
                      then replicate (length vs) (replicate (length (columns t)) ANaN)
                      else rows t)
            in if length vs \<noteq> length rs then Inl ValueError
               else if label \<in> set (columns t)
               then Inr (DataFrame (columns t)
                      (map (\<lambda>(v, r). map (\<lambda>(l, c). if l = label then v else c) (zip (columns t) r))
                         (zip vs rs)))
               else Inr (DataFrame (columns t @ [label]) (map (\<lambda>(v, r). r @ [v]) (zip vs rs)))))"

section \<open>The class \<^verbatim>\<open>Qbr\<close>\<close>

record Qbr =
  years :: pyval
  weeks :: pyval
  season_type :: pyval
  stat_type :: string

text \<open>
  \<^verbatim>\<open>__init__\<close>.  The two optional arguments are strings (\<^verbatim>\<open>.lower()\<close> is called on
  them); their defaults are \<^verbatim>\<open>'regular'\<close> and \<^verbatim>\<open>'weekly'\<close>.
\<close>

definition Qbr_init :: "pyval \<Rightarrow> pyval \<Rightarrow> string \<Rightarrow> string \<Rightarrow> Qbr" where
  "Qbr_init yrs wks stype stat =
     \<lparr>years = yrs, weeks = wks,
      season_type = Atom (AStr (py_strip (py_lower stype))),
      stat_type = py_strip (py_lower stat)\<rparr>"

subsection \<open>\<^verbatim>\<open>convert_season_identifiers\<close>\<close>

definition msg_season :: string where
  "msg_season = ''Please enter either: 'regular', 'postseason', or 'all'.''"

text \<open>
  The method reads the field \<^verbatim>\<open>self.season_type\<close>, not its parameter.  In the last
  branch the local variable receives the value of \<^verbatim>\<open>print\<close>, which is \<^verbatim>\<open>None\<close>.
\<close>

definition convert_season_identifiers :: "Qbr \<Rightarrow> pyval \<Rightarrow> world \<Rightarrow> pyval \<times> world" where
  "convert_season_identifiers self stype w =
     (if season_type self = Atom (AStr ''regular'') then (PList [AInt 2], w)
      else if season_type self = Atom (AStr ''postseason'') then (PList [AInt 3], w)
      else if season_type self = Atom (AStr ''all'') then (PList [AInt 2, AInt 3], w)
      else (Atom ANone, print msg_season w))"

subsection \<open>\<^verbatim>\<open>convert_to_list\<close>\<close>

text \<open>
  The loop over the copied list; \<open>Some r\<close> is the \<^verbatim>\<open>return\<close> inside the loop,
  \<open>None\<close> is the loop running to its end.
\<close>

fun for_num :: "atom list \<Rightarrow> pyval option" where
  "for_num [] = None"
| "for_num (num # rest) = (if \<not> isinstance_int num then Some (Atom ANone) else for_num rest)"

fun convert_to_list :: "pyval \<Rightarrow> pyval" where
  "convert_to_list (Atom a) = (if isinstance_int a then PList ([] @ [a]) else Atom ANone)"
| "convert_to_list (PList xs) = (case for_num xs of Some r \<Rightarrow> r | None \<Rightarrow> PList xs)"

subsection \<open>\<^verbatim>\<open>load_weekly_qbr\<close>\<close>

definition msg_week4 :: string where
  "msg_week4 = ''No data to output. Check variables entered. Note: there is no 'Week 4' webpage for postseason stats. It is skipped, with Week 3 as Conference Championships, and Week 5 as the Super Bowl.''"

definition msg_params :: string where
  "msg_params = ''Please enter valid parameters.''"

definition msg_nodata :: string where
  "msg_nodata = ''No data to output.''"

definition weekly_url :: "atom \<Rightarrow> atom \<Rightarrow> atom \<Rightarrow> string" where
  "weekly_url year season_id week =
     ''https://www.espn.com/nfl/qbr/_/view/weekly/season/'' @ py_str year
       @ ''/seasontype/'' @ py_str season_id @ ''/week/'' @ py_str week"

text \<open>
  The state of the loops: the list \<^verbatim>\<open>df\<close> of the tables collected so far, and the
  world.  A loop returns \<open>Some e\<close> when the exception \<open>e\<close> left it; the list
  \<^verbatim>\<open>df\<close> keeps what was appended before.
\<close>

type_synonym loop_state = "table list \<times> world"

definition season_label :: "atom \<Rightarrow> atom" where
  "season_label x = AStr (if py_eq_int x 2 then ''regular'' else ''postseason'')"

definition weekly_page :: "fetch \<Rightarrow> atom \<Rightarrow> atom \<Rightarrow> atom \<Rightarrow> loop_state \<Rightarrow> exn option \<times> loop_state" where
  "weekly_page fetch season_id year week st =
     (case st of (df, w) \<Rightarrow>
        if py_eq_int season_id 3 \<and> py_eq_int week 4 then (None, df, w)
        else
          (case read_html fetch (weekly_url year season_id week) w of
             (Inl e, w1) \<Rightarrow> (Some e, df, w1)
           | (Inr dfs, w1) \<Rightarrow>
               (case pd_concat_axis1 dfs of
                  Inl e \<Rightarrow> (Some e, df, w1)
                | Inr stg_df \<Rightarrow>
                    (let stg1 = set_column ''year'' year stg_df;
                         stg2 = set_column ''season_type'' season_id stg1
                     in case iter_column ''season_type'' stg2 of
                          Inl e \<Rightarrow> (Some e, df, w1)
                        | Inr xs \<Rightarrow>
                            (case set_column_list ''season_type'' (map season_label xs) stg2 of
                               Inl e \<Rightarrow> (Some e, df, w1)
                             | Inr stg3 \<Rightarrow> (None, df @ [stg3], w1))))))"

fun for_week :: "fetch \<Rightarrow> atom \<Rightarrow> atom \<Rightarrow> atom list \<Rightarrow> loop_state \<Rightarrow> exn option \<times> loop_state" where
  "for_week fetch season_id year [] st = (None, st)"
| "for_week fetch season_id year (week # rest) st =
     (case weekly_page fetch season_id year week st of
        (Some e, st1) \<Rightarrow> (Some e, st1)
      | (None, st1) \<Rightarrow> for_week fetch season_id year rest st1)"

fun for_year :: "fetch \<Rightarrow> atom \<Rightarrow> pyval \<Rightarrow> atom list \<Rightarrow> loop_state \<Rightarrow> exn option \<times> loop_state" where
  "for_year fetch season_id wks [] st = (None, st)"
| "for_year fetch season_id wks (year # rest) st =
     (case py_iter wks of
        Inl e \<Rightarrow> (Some e, st)
      | Inr ws \<Rightarrow>
          (case for_week fetch season_id year ws st of
             (Some e, st1) \<Rightarrow> (Some e, st1)
           | (None, st1) \<Rightarrow> for_year fetch season_id wks rest st1))"

fun for_season_id :: "fetch \<Rightarrow> pyval \<Rightarrow> pyval \<Rightarrow> atom list \<Rightarrow> loop_state \<Rightarrow> exn option \<times> loop_state" where
  "for_season_id fetch yrs wks [] st = (None, st)"
| "for_season_id fetch yrs wks (season_id # rest) st =
     (case py_iter yrs of
        Inl e \<Rightarrow> (Some e, st)
      | Inr ys \<Rightarrow>
          (case for_year fetch season_id wks ys st of
             (Some e, st1) \<Rightarrow> (Some e, st1)
           | (None, st1) \<Rightarrow> for_season_id fetch yrs wks rest st1))"

definition weekly_loops :: "fetch \<Rightarrow> pyval \<Rightarrow> pyval \<Rightarrow> pyval \<Rightarrow> world \<Rightarrow> exn option \<times> loop_state" where
  "weekly_loops fetch yrs wks stype w =
     (case py_iter stype of
        Inl e \<Rightarrow> (Some e, [], w)
      | Inr ss \<Rightarrow> for_season_id fetch yrs wks ss ([], w))"

text \<open>The second \<^verbatim>\<open>try\<close> statement: row binding, with its \<^verbatim>\<open>except ValueError\<close>.\<close>

definition row_bind :: "table list \<Rightarrow> world \<Rightarrow> (exn + dataset) \<times> world" where
  "row_bind df w =
     (case pd_concat_ignore_index df of
        Inr t \<Rightarrow> (Inr (Frame t), w)
      | Inl e \<Rightarrow> if e = ValueError then (Inr EmptyList, print msg_nodata w) else (Inl e, w))"

definition load_weekly_qbr :: "fetch \<Rightarrow> pyval \<Rightarrow> pyval \<Rightarrow> pyval \<Rightarrow> world \<Rightarrow> (exn + dataset) \<times> world" where
  "load_weekly_qbr fetch yrs wks stype w =
     (case weekly_loops fetch yrs wks stype w of
        (None, df, w1) \<Rightarrow> row_bind df w1
      | (Some e, df, w1) \<Rightarrow>
          if e = ImportError then row_bind df (print msg_week4 w1)
          else if e = TypeError then row_bind df (print msg_params w1)
          else (Inl e, w1))"

subsection \<open>\<^verbatim>\<open>load_season_leaders_qbr\<close>\<close>

definition msg_notables :: string where
  "msg_notables = ''No tables found.''"

definition leaders_url :: "atom \<Rightarrow> atom \<Rightarrow> string" where
  "leaders_url year season_id =
     ''https://www.espn.com/nfl/qbr/_/season/'' @ py_str year
       @ ''/seasontype/'' @ py_str season_id"

definition leaders_page :: "fetch \<Rightarrow> atom \<Rightarrow> atom \<Rightarrow> loop_state \<Rightarrow> exn option \<times> loop_state" where
  "leaders_page fetch season_id year st =
     (case st of (df, w) \<Rightarrow>
        (case read_html fetch (leaders_url year season_id) w of
           (Inl e, w1) \<Rightarrow> (Some e, df, w1)
         | (Inr dfs, w1) \<Rightarrow>
             (case pd_concat_axis1 dfs of
                Inl e \<Rightarrow> (Some e, df, w1)
              | Inr stg_df \<Rightarrow> (None, df @ [set_column ''year'' year stg_df], w1))))"

fun leaders_for_year :: "fetch \<Rightarrow> atom \<Rightarrow> atom list \<Rightarrow> loop_state \<Rightarrow> exn option \<times> loop_state" where
  "leaders_for_year fetch season_id [] st = (None, st)"
| "leaders_for_year fetch season_id (year # rest) st =
     (case leaders_page fetch season_id year st of
        (Some e, st1) \<Rightarrow> (Some e, st1)
      | (None, st1) \<Rightarrow> leaders_for_year fetch season_id rest st1)"

fun leaders_for_season_id :: "fetch \<Rightarrow> pyval \<Rightarrow> atom list \<Rightarrow> loop_state \<Rightarrow> exn option \<times> loop_state" where
  "leaders_for_season_id fetch yrs [] st = (None, st)"
| "leaders_for_season_id fetch yrs (season_id # rest) st =
     (case py_iter yrs of
        Inl e \<Rightarrow> (Some e, st)
      | Inr ys \<Rightarrow>
          (case leaders_for_year fetch season_id ys st of
             (Some e, st1) \<Rightarrow> (Some e, st1)
           | (None, st1) \<Rightarrow> leaders_for_season_id fetch yrs rest st1))"

definition leaders_loops :: "fetch \<Rightarrow> pyval \<Rightarrow> pyval \<Rightarrow> world \<Rightarrow> exn option \<times> loop_state" where
  "leaders_loops fetch yrs stype w =
     (case py_iter stype of
        Inl e \<Rightarrow> (Some e, [], w)
      | Inr ss \<Rightarrow> leaders_for_season_id fetch yrs ss ([], w))"

definition load_season_leaders_qbr :: "fetch \<Rightarrow> pyval \<Rightarrow> pyval \<Rightarrow> world \<Rightarrow> (exn + dataset) \<times> world" where
  "load_season_leaders_qbr fetch yrs stype w =
     (case leaders_loops fetch yrs stype w of
        (None, df, w1) \<Rightarrow> row_bind df w1
      | (Some e, df, w1) \<Rightarrow>
          if e = ValueError then row_bind df (print msg_notables w1)
          else (Inl e, w1))"

subsection \<open>\<^verbatim>\<open>load_qbr\<close>\<close>

definition msg_stat :: string where
  "msg_stat = ''Please enter an appropriate choice for stat types: weekly or leaders.''"

text \<open>
  The method returns its result (or the exception that leaves it), the object with
  its three fields overwritten, and the world.  In the last branch \<^verbatim>\<open>final_df\<close> was
  never assigned, so \<^verbatim>\<open>return final_df\<close> raises \<^verbatim>\<open>UnboundLocalError\<close>.
\<close>

definition load_qbr :: "fetch \<Rightarrow> Qbr \<Rightarrow> world \<Rightarrow> (exn + dataset) \<times> Qbr \<times> world" where
  "load_qbr fetch self w =
     (case convert_season_identifiers self (season_type self) w of (ids, w1) \<Rightarrow>
        let self1 = self\<lparr>season_type := ids\<rparr>;
            self2 = self1\<lparr>years := convert_to_list (years self1)\<rparr>;
            self3 = self2\<lparr>weeks := convert_to_list (weeks self2)\<rparr>
        in if stat_type self3 = ''weekly'' then
             (case load_weekly_qbr fetch (years self3) (weeks self3) (season_type self3) w1 of
                (final_df, w2) \<Rightarrow> (final_df, self3, w2))
           else if stat_type self3 = ''leaders'' then
             (case load_season_leaders_qbr fetch (years self3) (season_type self3) w1 of
                (final_df, w2) \<Rightarrow> (final_df, self3, w2))
           else (Inl UnboundLocalError, self3, print msg_stat w1))"

section \<open>Notions used in the statements\<close>

text \<open>A world in which nothing was printed or requested yet.\<close>

definition world0 :: world where
  "world0 = \<lparr>out = [], requests = []\<rparr>"

text \<open>\<open>extend w d\<close> is the world \<open>w\<close> followed by what \<open>d\<close> records.\<close>

definition extend :: "world \<Rightarrow> world \<Rightarrow> world" where
  "extend w d = w\<lparr>out := out w @ out d, requests := requests w @ requests d\<rparr>"

definition shifted :: "world \<Rightarrow> 'a \<times> loop_state \<Rightarrow> 'a \<times> loop_state" where
  "shifted w x = (case x of (r, df, d) \<Rightarrow> (r, df, extend w d))"

text \<open>
  A page as the site serves it: one table of quarterbacks and one table of their
  statistics, with one row each.
\<close>

definition sample_page :: "table list" where
  "sample_page =
     [DataFrame [''NAME''] [[AStr ''Aaron Rodgers'']], DataFrame [''QBR''] [[AInt 84]]]"

text \<open>
  A page whose two tables, of two rows each, both have a column labelled
  \<^verbatim>\<open>season_type\<close>.
\<close>

definition twice_labelled_page :: "table list" where
  "twice_labelled_page =
     [DataFrame [''NAME'', ''season_type'']
        [[AStr ''Aaron Rodgers'', AStr ''REG''], [AStr ''Tom Brady'', AStr ''REG'']],
      DataFrame [''QBR'', ''season_type'']
        [[AInt 84, AStr ''REG''], [AInt 72, AStr ''REG'']]]"

text \<open>
  A table is rectangular when every row has one cell per column, as the tables of
  \<^verbatim>\<open>pd.read_html\<close> are.  Plain pages are pages whose tables are rectangular and have
  no column labelled \<^verbatim>\<open>season_type\<close>.  A table is stamped when it has the two added
  columns and every row holds one of the given years and one of the given season labels
  in them.
\<close>

definition rectangular :: "table \<Rightarrow> bool" where
  "rectangular t = list_all (\<lambda>r. length r = length (columns t)) (rows t)"

definition plain_pages :: "fetch \<Rightarrow> bool" where
  "plain_pages fetch =
     (\<forall>url dfs. fetch url = Inr dfs \<longrightarrow>
        list_all (\<lambda>t. rectangular t \<and> ''season_type'' \<notin> set (columns t)) dfs)"

definition stamped :: "atom set \<Rightarrow> atom set \<Rightarrow> table \<Rightarrow> bool" where
  "stamped Y L t =
     (''year'' \<in> set (columns t) \<and> ''season_type'' \<in> set (columns t) \<and>
      list_all (\<lambda>r. cell_of (columns t) r ''year'' \<in> Y \<and>
                     cell_of (columns t) r ''season_type'' \<in> L) (rows t))"

text \<open>
  The triples (season code, year, week) of a weekly request in the order of the three
  nested loops, season code first, then year, then week, and the loop body run over a
  list of triples until an exception leaves it.
\<close>

definition weekly_triples :: "atom list \<Rightarrow> atom list \<Rightarrow> atom list \<Rightarrow> (atom \<times> atom \<times> atom) list" where
  "weekly_triples ss ys ks =
     concat (map (\<lambda>s. concat (map (\<lambda>y. map (\<lambda>k. (s, y, k)) ks) ys)) ss)"

fun run_triples :: "fetch \<Rightarrow> (atom \<times> atom \<times> atom) list \<Rightarrow> loop_state \<Rightarrow> exn option \<times> loop_state" where
  "run_triples fetch [] st = (None, st)"
| "run_triples fetch ((s, y, k) # rest) st =
     (case weekly_page fetch s y k st of
        (Some e, st1) \<Rightarrow> (Some e, st1)
      | (None, st1) \<Rightarrow> run_triples fetch rest st1)"

text \<open>Pages of which the one of week 1 of the regular season of 2020 cannot be read.\<close>

definition week1_fails :: fetch where
  "week1_fails url =
     (if url = ''https://www.espn.com/nfl/qbr/_/view/weekly/season/2020/seasontype/2/week/1''
      then Inl ImportError else Inr sample_page)"

text \<open>Pages of which the one of week 2 of the regular season of 2020 cannot be read.\<close>

definition week2_fails :: fetch where
  "week2_fails url =
     (if url = ''https://www.espn.com/nfl/qbr/_/view/weekly/season/2020/seasontype/2/week/2''
      then Inl ImportError else Inr sample_page)"

section \<open>Evaluation of concrete calls\<close>

lemmas py_string_eval =
  py_strip_def py_lower_def py_lower_char_def py_isspace_def char_of_def bit_Suc_0_iff

lemmas url_eval =
  weekly_url_def leaders_url_def str_int_def str_nat.simps char_of_def bit_Suc_0_iff

lemmas frame_eval =
  bind_columns_def set_column_def iter_column_def set_column_list_def cell_of_def
  season_label_def reindex_def union_labels_def

lemmas load_eval =
  load_qbr_def Qbr_init_def convert_season_identifiers_def
  load_weekly_qbr_def weekly_loops_def weekly_page_def
  load_season_leaders_qbr_def leaders_loops_def leaders_page_def
  row_bind_def read_html_def print_def world0_def sample_page_def twice_labelled_page_def

section \<open>The normaliser of years and weeks\<close>

lemma for_num_all_int: "list_all isinstance_int xs \<Longrightarrow> for_num xs = None"
  by (induction xs) auto

lemma for_num_some_bad: "\<not> list_all isinstance_int xs \<Longrightarrow> for_num xs = Some (Atom ANone)"
  by (induction xs) auto

text \<open>
  C5.  For an input that is one integer, or a list whose elements are all integers
  (instances of \<^verbatim>\<open>int\<close>, which include \<^verbatim>\<open>bool\<close>), \<^verbatim>\<open>convert_to_list\<close> returns a
  list of integers: the one-element list of the scalar, or the input list itself, with
  the same length and the same order.
\<close>

theorem convert_to_list_valid:
  "(isinstance_int a \<longrightarrow> convert_to_list (Atom a) = PList [a]) \<and>
   (list_all isinstance_int xs \<longrightarrow> convert_to_list (PList xs) = PList xs)"
  by (simp add: for_num_all_int)

theorem convert_to_list_valid_witness:
  "isinstance_int (AInt 2020) \<and> convert_to_list (Atom (AInt 2020)) = PList [AInt 2020] \<and>
   list_all isinstance_int [AInt 1, AInt 2] \<and>
   convert_to_list (PList [AInt 1, AInt 2]) = PList [AInt 1, AInt 2]"
  using convert_to_list_valid [of "AInt 2020" "[AInt 1, AInt 2]"] by simp

text \<open>
  C6.  For an input that is neither an integer nor a list, and for a list with an
  element, at any position, that is not an integer, \<^verbatim>\<open>convert_to_list\<close> returns
  \<^verbatim>\<open>None\<close> itself: no list, hence no partly validated list.
\<close>

theorem convert_to_list_invalid:
  "(\<not> isinstance_int a \<longrightarrow> convert_to_list (Atom a) = Atom ANone) \<and>
   ((\<exists>x \<in> set xs. \<not> isinstance_int x) \<longrightarrow> convert_to_list (PList xs) = Atom ANone)"
  by (auto simp: for_num_some_bad list_all_iff)

theorem convert_to_list_invalid_witness:
  "\<not> isinstance_int (AStr ''2020'') \<and> convert_to_list (Atom (AStr ''2020'')) = Atom ANone \<and>
   (\<exists>x \<in> set [AInt 1, AStr ''two'', AInt 3]. \<not> isinstance_int x) \<and>
   convert_to_list (PList [AInt 1, AStr ''two'', AInt 3]) = Atom ANone"
  using convert_to_list_invalid [of "AStr ''2020''" "[AInt 1, AStr ''two'', AInt 3]"] by simp

section \<open>The normaliser of the season type\<close>

text \<open>
  C10.  \<^verbatim>\<open>convert_season_identifiers\<close> ignores its argument: two objects with the same
  field \<^verbatim>\<open>season_type\<close> get the same list of season codes whatever the arguments and
  whatever was printed before, and on one object in one world two arguments give the
  same result and the same output.
\<close>

theorem season_argument_ignored:
  "season_type self1 = season_type self2 \<Longrightarrow>
   fst (convert_season_identifiers self1 a w1) = fst (convert_season_identifiers self2 b w2) \<and>
   convert_season_identifiers self1 a w = convert_season_identifiers self1 b w"
  by (simp add: convert_season_identifiers_def)

theorem season_argument_ignored_witness:
  "convert_season_identifiers (Qbr_init (Atom (AInt 2020)) (Atom (AInt 1)) ''all'' ''weekly'')
      (Atom (AStr ''regular'')) \<lparr>out = [], requests = []\<rparr>
   = convert_season_identifiers (Qbr_init (Atom (AInt 2020)) (Atom (AInt 1)) ''all'' ''weekly'')
      (PList [AInt 3]) \<lparr>out = [], requests = []\<rparr>"
  using season_argument_ignored [of "Qbr_init (Atom (AInt 2020)) (Atom (AInt 1)) ''all'' ''weekly''"
     "Qbr_init (Atom (AInt 2020)) (Atom (AInt 1)) ''all'' ''weekly''"
     "Atom (AStr ''regular'')" "\<lparr>out = [], requests = []\<rparr>"
     "PList [AInt 3]" "\<lparr>out = [], requests = []\<rparr>" "\<lparr>out = [], requests = []\<rparr>"]
  by simp

text \<open>
  C4.  On a newly built object the season type, lower-cased and stripped by the
  constructor, decides the result of \<^verbatim>\<open>convert_season_identifiers\<close> for every input
  string: \<^verbatim>\<open>'regular'\<close> gives \<^verbatim>\<open>[2]\<close>, \<^verbatim>\<open>'postseason'\<close> gives \<^verbatim>\<open>[3]\<close>, \<^verbatim>\<open>'all'\<close> gives
  \<^verbatim>\<open>[2, 3]\<close> in this order, and every other string prints the diagnostic and gives
  \<^verbatim>\<open>None\<close>.  With \<^verbatim>\<open>None\<close> for the season codes the loops of both loaders are left at
  once: no table is collected and no page is requested.
\<close>

theorem season_type_normalization:
  "convert_season_identifiers (Qbr_init yrs wks s stat) x w =
     (if py_strip (py_lower s) = ''regular'' then (PList [AInt 2], w)
      else if py_strip (py_lower s) = ''postseason'' then (PList [AInt 3], w)
      else if py_strip (py_lower s) = ''all'' then (PList [AInt 2, AInt 3], w)
      else (Atom ANone, print msg_season w)) \<and>
   weekly_loops fetch yrs' wks' (Atom ANone) w' = (Some TypeError, [], w') \<and>
   leaders_loops fetch yrs' (Atom ANone) w' = (Some TypeError, [], w')"
  by (simp add: convert_season_identifiers_def Qbr_init_def weekly_loops_def leaders_loops_def)

theorem season_type_normalization_witness:
  "convert_season_identifiers (Qbr_init (Atom (AInt 2020)) (Atom (AInt 1)) ''  ALL '' ''weekly'')
      (Atom ANone) \<lparr>out = [], requests = []\<rparr>
     = (PList [AInt 2, AInt 3], \<lparr>out = [], requests = []\<rparr>) \<and>
   convert_season_identifiers (Qbr_init (Atom (AInt 2020)) (Atom (AInt 1)) ''playoffs'' ''weekly'')
      (Atom ANone) \<lparr>out = [], requests = []\<rparr>
     = (Atom ANone, \<lparr>out = [msg_season], requests = []\<rparr>)"
  using season_type_normalization [of "Atom (AInt 2020)" "Atom (AInt 1)" "''  ALL ''" "''weekly''"
          "Atom ANone" "\<lparr>out = [], requests = []\<rparr>"]
        season_type_normalization [of "Atom (AInt 2020)" "Atom (AInt 1)" "''playoffs''" "''weekly''"
          "Atom ANone" "\<lparr>out = [], requests = []\<rparr>"]
  by (simp add: py_string_eval print_def)

section \<open>What a call adds to the world does not depend on the world\<close>

lemma shifted_simps [simp]: "shifted w (r, df, d) = (r, df, extend w d)"
  by (simp add: shifted_def)

lemma extend_print: "print s (extend w d) = extend w (print s d)"
  by (simp add: print_def extend_def)

lemma read_html_extend:
  "read_html fetch url (extend w d) = (case read_html fetch url d of (r, d1) \<Rightarrow> (r, extend w d1))"
  by (simp add: read_html_def extend_def)

lemma weekly_page_extend:
  "weekly_page fetch s y k (df, extend w d) = shifted w (weekly_page fetch s y k (df, d))"
  by (simp add: weekly_page_def read_html_extend Let_def split: prod.splits sum.splits)

lemma for_week_extend:
  "for_week fetch s y ks (df, extend w d) = shifted w (for_week fetch s y ks (df, d))"
proof (induction ks arbitrary: df d)
  case Nil
  show ?case by simp
next
  case (Cons k ks)
  obtain r df1 d1 where p: "weekly_page fetch s y k (df, d) = (r, df1, d1)"
    by (cases "weekly_page fetch s y k (df, d)") auto
  show ?case
    by (cases r) (simp_all add: weekly_page_extend p Cons.IH)
qed

lemma for_year_extend:
  "for_year fetch s wks ys (df, extend w d) = shifted w (for_year fetch s wks ys (df, d))"
proof (induction ys arbitrary: df d)
  case Nil
  show ?case by simp
next
  case (Cons y ys)
  show ?case
  proof (cases "py_iter wks")
    case (Inl e)
    then show ?thesis by simp
  next
    case (Inr ks)
    obtain r df1 d1 where p: "for_week fetch s y ks (df, d) = (r, df1, d1)"
      by (cases "for_week fetch s y ks (df, d)") auto
    show ?thesis
      by (cases r) (simp_all add: Inr for_week_extend p Cons.IH)
  qed
qed

lemma for_season_id_extend:
  "for_season_id fetch yrs wks ss (df, extend w d)
     = shifted w (for_season_id fetch yrs wks ss (df, d))"
proof (induction ss arbitrary: df d)
  case Nil
  show ?case by simp
next
  case (Cons s ss)
  show ?case
  proof (cases "py_iter yrs")
    case (Inl e)
    then show ?thesis by simp
  next
    case (Inr ys)
    obtain r df1 d1 where p: "for_year fetch s wks ys (df, d) = (r, df1, d1)"
      by (cases "for_year fetch s wks ys (df, d)") auto
    show ?thesis
      by (cases r) (simp_all add: Inr for_year_extend p Cons.IH)
  qed
qed

lemma weekly_loops_extend:
  "weekly_loops fetch yrs wks stype (extend w d) = shifted w (weekly_loops fetch yrs wks stype d)"
  by (simp add: weekly_loops_def for_season_id_extend split: sum.splits)

lemma row_bind_extend:
  "row_bind df (extend w d) = (case row_bind df d of (r, d1) \<Rightarrow> (r, extend w d1))"
  by (simp add: row_bind_def extend_print split: sum.splits)

lemma load_weekly_qbr_extend:
  "load_weekly_qbr fetch yrs wks stype (extend w d)
     = (case load_weekly_qbr fetch yrs wks stype d of (r, d1) \<Rightarrow> (r, extend w d1))"
proof -
  obtain r df d1 where p: "weekly_loops fetch yrs wks stype d = (r, df, d1)"
    by (cases "weekly_loops fetch yrs wks stype d") auto
  show ?thesis
    by (cases r) (simp_all add: load_weekly_qbr_def weekly_loops_extend p extend_print row_bind_extend)
qed


lemma leaders_page_extend:
  "leaders_page fetch s y (df, extend w d) = shifted w (leaders_page fetch s y (df, d))"
  by (simp add: leaders_page_def read_html_extend split: prod.splits sum.splits)

lemma leaders_for_year_extend:
  "leaders_for_year fetch s ys (df, extend w d) = shifted w (leaders_for_year fetch s ys (df, d))"
proof (induction ys arbitrary: df d)
  case Nil
  show ?case by simp
next
  case (Cons y ys)
  obtain r df1 d1 where p: "leaders_page fetch s y (df, d) = (r, df1, d1)"
    by (cases "leaders_page fetch s y (df, d)") auto
  show ?case
    by (cases r) (simp_all add: leaders_page_extend p Cons.IH)
qed

lemma leaders_for_season_id_extend:
  "leaders_for_season_id fetch yrs ss (df, extend w d)
     = shifted w (leaders_for_season_id fetch yrs ss (df, d))"
proof (induction ss arbitrary: df d)
  case Nil
  show ?case by simp
next
  case (Cons s ss)
  show ?case
  proof (cases "py_iter yrs")
    case (Inl e)
    then show ?thesis by simp
  next
    case (Inr ys)
    obtain r df1 d1 where p: "leaders_for_year fetch s ys (df, d) = (r, df1, d1)"
      by (cases "leaders_for_year fetch s ys (df, d)") auto
    show ?thesis
      by (cases r) (simp_all add: Inr leaders_for_year_extend p Cons.IH)
  qed
qed

lemma leaders_loops_extend:
  "leaders_loops fetch yrs stype (extend w d) = shifted w (leaders_loops fetch yrs stype d)"
  by (simp add: leaders_loops_def leaders_for_season_id_extend split: sum.splits)

lemma load_season_leaders_qbr_extend:
  "load_season_leaders_qbr fetch yrs stype (extend w d)
     = (case load_season_leaders_qbr fetch yrs stype d of (r, d1) \<Rightarrow> (r, extend w d1))"
proof -
  obtain r df d1 where p: "leaders_loops fetch yrs stype d = (r, df, d1)"
    by (cases "leaders_loops fetch yrs stype d") auto
  show ?thesis
    by (cases r) (simp_all add: load_season_leaders_qbr_def leaders_loops_extend p
        extend_print row_bind_extend)
qed

lemma convert_season_identifiers_extend:
  "convert_season_identifiers self x (extend w d)
     = (case convert_season_identifiers self x d of (r, d1) \<Rightarrow> (r, extend w d1))"
  by (simp add: convert_season_identifiers_def extend_print)

lemma load_qbr_extend:
  "load_qbr fetch self (extend w d)
     = (case load_qbr fetch self d of (r, self1, d1) \<Rightarrow> (r, self1, extend w d1))"
proof -
  obtain ids d0 where c: "convert_season_identifiers self (season_type self) d = (ids, d0)"
    by (cases "convert_season_identifiers self (season_type self) d") auto
  show ?thesis
    by (simp add: load_qbr_def convert_season_identifiers_extend c Let_def
        load_weekly_qbr_extend load_season_leaders_qbr_extend extend_print
        split: prod.splits)
qed

lemma extend_world0: "extend w world0 = w" "extend world0 w = w"
  by (simp_all add: extend_def world0_def)

lemma load_qbr_from_world0:
  "load_qbr fetch self w
     = (case load_qbr fetch self world0 of (r, self1, d) \<Rightarrow> (r, self1, extend w d))"
  using load_qbr_extend [of fetch self w world0] by (simp add: extend_world0)

lemma load_qbr_fields:
  "fst (snd (load_qbr fetch self w))
     = \<lparr>years = convert_to_list (years self), weeks = convert_to_list (weeks self),
        season_type = fst (convert_season_identifiers self x w), stat_type = stat_type self\<rparr>"
  by (simp add: load_qbr_def Let_def convert_season_identifiers_def split: prod.splits)


section \<open>The dispatcher\<close>

text \<open>
  C1.  The call \<^verbatim>\<open>Qbr(2020, 1, 'regular', 'both').load_qbr()\<close>: the stat type is
  neither \<^verbatim>\<open>'weekly'\<close> nor \<^verbatim>\<open>'leaders'\<close>.  The diagnostic is printed, and then the
  method does not return: \<^verbatim>\<open>return final_df\<close> raises \<^verbatim>\<open>UnboundLocalError\<close>, whatever
  the pages hold.
\<close>

theorem load_qbr_unknown_stat_type_raises:
  "load_qbr fetch (Qbr_init (Atom (AInt 2020)) (Atom (AInt 1)) ''regular'' ''both'') world0
     = (Inl UnboundLocalError,
        \<lparr>years = PList [AInt 2020], weeks = PList [AInt 1], season_type = PList [AInt 2],
         stat_type = ''both''\<rparr>,
        \<lparr>out = [msg_stat], requests = []\<rparr>)"
  by (simp add: load_eval py_string_eval)

text \<open>
  C8.  The call \<^verbatim>\<open>Qbr(2020, 1).load_qbr()\<close> when the requested page has no table, so
  that \<^verbatim>\<open>pd.read_html\<close> raises \<^verbatim>\<open>ValueError\<close>: no page is collected, and the weekly
  loader, whose \<^verbatim>\<open>except\<close> clauses name \<^verbatim>\<open>ImportError\<close> and \<^verbatim>\<open>TypeError\<close> only, lets
  the exception reach the caller.  Nothing is printed and no dataset is returned.
\<close>

theorem load_weekly_no_tables_raises:
  "load_qbr (\<lambda>url. Inl ValueError)
      (Qbr_init (Atom (AInt 2020)) (Atom (AInt 1)) ''regular'' ''weekly'') world0
     = (Inl ValueError,
        \<lparr>years = PList [AInt 2020], weeks = PList [AInt 1], season_type = PList [AInt 2],
         stat_type = ''weekly''\<rparr>,
        \<lparr>out = [],
         requests = [''https://www.espn.com/nfl/qbr/_/view/weekly/season/2020/seasontype/2/week/1'']\<rparr>)"
  by (simp add: load_eval py_string_eval url_eval)

text \<open>
  X1.  Row binding of an empty collection does not raise: it prints
  \<^verbatim>\<open>No data to output.\<close> and gives the empty list.  So a weekly request whose loops end
  normally, or by \<^verbatim>\<open>ImportError\<close> or \<^verbatim>\<open>TypeError\<close>, with no table collected, and a
  leaders request whose loops end normally or by \<^verbatim>\<open>ValueError\<close> with no table
  collected, return the empty list with this diagnostic as the last line printed.
\<close>

theorem empty_collection_gives_empty_list:
  "row_bind [] w = (Inr EmptyList, print msg_nodata w) \<and>
   (weekly_loops fetch yrs wks stype w = (r, [], w1) \<longrightarrow>
      r \<in> {None, Some ImportError, Some TypeError} \<longrightarrow>
      (\<exists>w2. load_weekly_qbr fetch yrs wks stype w = (Inr EmptyList, print msg_nodata w2))) \<and>
   (leaders_loops fetch yrs stype w = (r', [], w1') \<longrightarrow>
      r' \<in> {None, Some ValueError} \<longrightarrow>
      (\<exists>w2. load_season_leaders_qbr fetch yrs stype w = (Inr EmptyList, print msg_nodata w2)))"
  by (auto simp: row_bind_def load_weekly_qbr_def load_season_leaders_qbr_def)

theorem empty_collection_gives_empty_list_witness:
  "weekly_loops (\<lambda>url. Inr sample_page) (PList [AInt 2020]) (PList [AInt 4]) (PList [AInt 3]) world0
     = (None, [], world0) \<and>
   load_weekly_qbr (\<lambda>url. Inr sample_page) (PList [AInt 2020]) (PList [AInt 4]) (PList [AInt 3]) world0
     = (Inr EmptyList, \<lparr>out = [msg_nodata], requests = []\<rparr>) \<and>
   leaders_loops (\<lambda>url. Inl ValueError) (PList [AInt 2020]) (PList [AInt 2]) world0
     = (Some ValueError, [],
        \<lparr>out = [], requests = [''https://www.espn.com/nfl/qbr/_/season/2020/seasontype/2'']\<rparr>) \<and>
   load_season_leaders_qbr (\<lambda>url. Inl ValueError) (PList [AInt 2020]) (PList [AInt 2]) world0
     = (Inr EmptyList,
        \<lparr>out = [msg_notables, msg_nodata],
         requests = [''https://www.espn.com/nfl/qbr/_/season/2020/seasontype/2'']\<rparr>)"
proof -
  have a: "weekly_loops (\<lambda>url. Inr sample_page) (PList [AInt 2020]) (PList [AInt 4]) (PList [AInt 3]) world0
     = (None, [], world0)"
    by (simp add: weekly_loops_def weekly_page_def)
  have b: "leaders_loops (\<lambda>url. Inl ValueError) (PList [AInt 2020]) (PList [AInt 2]) world0
     = (Some ValueError, [],
        \<lparr>out = [], requests = [''https://www.espn.com/nfl/qbr/_/season/2020/seasontype/2'']\<rparr>)"
    by (simp add: load_eval url_eval)
  from empty_collection_gives_empty_list
         [where w = world0 and fetch = "\<lambda>url. Inr sample_page" and yrs = "PList [AInt 2020]"
            and wks = "PList [AInt 4]" and stype = "PList [AInt 3]" and r = None and ?w1.0 = world0]
       empty_collection_gives_empty_list
         [where w = world0 and fetch = "\<lambda>url. Inl ValueError" and yrs = "PList [AInt 2020]"
            and stype = "PList [AInt 2]" and r' = "Some ValueError"
            and w1' = "\<lparr>out = [], requests = [''https://www.espn.com/nfl/qbr/_/season/2020/seasontype/2'']\<rparr>"]
       a b
  show ?thesis
    by (auto simp: load_weekly_qbr_def load_season_leaders_qbr_def row_bind_def print_def world0_def)
qed

text \<open>
  X2.  A leaders request for the years 2019 and 2020 of the regular season, when both
  pages can be read and have the same column labels: the result is the rows of the page
  of 2019 with 2019 in the column \<^verbatim>\<open>year\<close>, followed by the rows of the page of 2020
  with 2020 in it, and it has as many rows as both pages together.
\<close>

theorem leaders_two_years_rows:
  assumes "fetch (leaders_url (AInt 2019) (AInt 2)) = Inr dfs1" and "pd_concat_axis1 dfs1 = Inr t1"
      and "fetch (leaders_url (AInt 2020) (AInt 2)) = Inr dfs2" and "pd_concat_axis1 dfs2 = Inr t2"
      and "columns t1 = columns t2"
  shows "fst (load_qbr fetch (Qbr_init (PList [AInt 2019, AInt 2020]) wks ''regular'' ''leaders'') w)
           = Inr (Frame (DataFrame (columns (set_column ''year'' (AInt 2019) t1))
                   (rows (set_column ''year'' (AInt 2019) t1) @
                    rows (set_column ''year'' (AInt 2020) t2)))) \<and>
         length (rows (set_column ''year'' (AInt 2019) t1) @ rows (set_column ''year'' (AInt 2020) t2))
           = length (rows t1) + length (rows t2)"
proof -
  have c: "columns (set_column ''year'' (AInt 2020) t2) = columns (set_column ''year'' (AInt 2019) t1)"
    using assms(5) by (simp add: set_column_def)
  have n: "length (rows (set_column ''year'' y t)) = length (rows t)" for y t
    by (simp add: set_column_def)
  show ?thesis
    using assms(1-4) c
    by (simp add: load_qbr_def Qbr_init_def convert_season_identifiers_def py_string_eval
        load_season_leaders_qbr_def leaders_loops_def leaders_page_def read_html_def row_bind_def n)
qed

theorem leaders_two_years_rows_witness:
  "fst (load_qbr (\<lambda>url. Inr sample_page)
          (Qbr_init (PList [AInt 2019, AInt 2020]) (Atom (AInt 1)) ''regular'' ''leaders'') world0)
     = Inr (Frame (DataFrame [''NAME'', ''QBR'', ''year'']
              [[AStr ''Aaron Rodgers'', AInt 84, AInt 2019],
               [AStr ''Aaron Rodgers'', AInt 84, AInt 2020]]))"
proof -
  have p: "pd_concat_axis1 sample_page = Inr (DataFrame [''NAME'', ''QBR''] [[AStr ''Aaron Rodgers'', AInt 84]])"
    by (simp add: sample_page_def bind_columns_def)
  from leaders_two_years_rows [of "\<lambda>url. Inr sample_page" sample_page _ sample_page _
         "Atom (AInt 1)" world0, OF refl p refl p refl]
  show ?thesis by (simp add: frame_eval)
qed

section \<open>Repeating a request\<close>

text \<open>
  C3, as stated, fails.  The first \<^verbatim>\<open>load_qbr\<close> of \<^verbatim>\<open>Qbr(2020, 1)\<close> returns the table
  of the page and leaves the list \<^verbatim>\<open>[2]\<close> in the field \<^verbatim>\<open>season_type\<close>; the second
  \<^verbatim>\<open>load_qbr\<close> of the same object, with the same page, finds no season type it knows
  and returns the empty list.
\<close>

theorem second_load_differs:
  "load_qbr (\<lambda>url. Inr sample_page)
      (Qbr_init (Atom (AInt 2020)) (Atom (AInt 1)) ''regular'' ''weekly'') world0
     = (Inr (Frame (DataFrame [''NAME'', ''QBR'', ''year'', ''season_type'']
          [[AStr ''Aaron Rodgers'', AInt 84, AInt 2020, AStr ''regular'']])),
        \<lparr>years = PList [AInt 2020], weeks = PList [AInt 1], season_type = PList [AInt 2],
         stat_type = ''weekly''\<rparr>,
        \<lparr>out = [],
         requests = [''https://www.espn.com/nfl/qbr/_/view/weekly/season/2020/seasontype/2/week/1'']\<rparr>) \<and>
   load_qbr (\<lambda>url. Inr sample_page)
      \<lparr>years = PList [AInt 2020], weeks = PList [AInt 1], season_type = PList [AInt 2],
       stat_type = ''weekly''\<rparr>
      \<lparr>out = [],
       requests = [''https://www.espn.com/nfl/qbr/_/view/weekly/season/2020/seasontype/2/week/1'']\<rparr>
     = (Inr EmptyList,
        \<lparr>years = PList [AInt 2020], weeks = PList [AInt 1], season_type = Atom ANone,
         stat_type = ''weekly''\<rparr>,
        \<lparr>out = [msg_season, msg_params, msg_nodata],
         requests = [''https://www.espn.com/nfl/qbr/_/view/weekly/season/2020/seasontype/2/week/1'']\<rparr>)"
  by (simp add: load_eval py_string_eval url_eval frame_eval)

text \<open>
  C3, amended.  The same request issued through two newly built objects (same years,
  weeks, season type and stat type) against the same pages gives the same result,
  prints the same lines and requests the same addresses, whatever was printed or
  requested before.  \<^verbatim>\<open>load_qbr\<close> does change the object: it leaves the normalised
  years, weeks and season codes in its fields.
\<close>

theorem fresh_requests_agree:
  assumes "load_qbr fetch (Qbr_init yrs wks s t) w1 = (r1, self1, w1')"
      and "load_qbr fetch (Qbr_init yrs wks s t) w2 = (r2, self2, w2')"
  shows "r1 = r2 \<and> self1 = self2 \<and> (\<exists>d. w1' = extend w1 d \<and> w2' = extend w2 d) \<and>
         self1 = \<lparr>years = convert_to_list yrs, weeks = convert_to_list wks,
                  season_type = fst (convert_season_identifiers (Qbr_init yrs wks s t) x w1),
                  stat_type = py_strip (py_lower t)\<rparr>"
proof -
  obtain r self0 d where z: "load_qbr fetch (Qbr_init yrs wks s t) world0 = (r, self0, d)"
    by (cases "load_qbr fetch (Qbr_init yrs wks s t) world0") auto
  have a: "(r1, self1, w1') = (r, self0, extend w1 d)"
    using load_qbr_from_world0 [of fetch "Qbr_init yrs wks s t" w1] assms(1) z by simp
  have b: "(r2, self2, w2') = (r, self0, extend w2 d)"
    using load_qbr_from_world0 [of fetch "Qbr_init yrs wks s t" w2] assms(2) z by simp
  have c: "self1 = \<lparr>years = convert_to_list yrs, weeks = convert_to_list wks,
                  season_type = fst (convert_season_identifiers (Qbr_init yrs wks s t) x w1),
                  stat_type = py_strip (py_lower t)\<rparr>"
    using load_qbr_fields [of fetch "Qbr_init yrs wks s t" w1 x] assms(1)
    by (simp add: Qbr_init_def)
  from a b c show ?thesis by auto
qed

theorem fresh_requests_agree_witness:
  "load_qbr (\<lambda>url. Inr sample_page)
      (Qbr_init (Atom (AInt 2020)) (Atom (AInt 1)) ''regular'' ''weekly'') world0
     = (Inr (Frame (DataFrame [''NAME'', ''QBR'', ''year'', ''season_type'']
          [[AStr ''Aaron Rodgers'', AInt 84, AInt 2020, AStr ''regular'']])),
        \<lparr>years = PList [AInt 2020], weeks = PList [AInt 1], season_type = PList [AInt 2],
         stat_type = ''weekly''\<rparr>,
        \<lparr>out = [],
         requests = [''https://www.espn.com/nfl/qbr/_/view/weekly/season/2020/seasontype/2/week/1'']\<rparr>) \<and>
   load_qbr (\<lambda>url. Inr sample_page)
      (Qbr_init (Atom (AInt 2020)) (Atom (AInt 1)) ''regular'' ''weekly'')
      \<lparr>out = [msg_nodata], requests = []\<rparr>
     = (Inr (Frame (DataFrame [''NAME'', ''QBR'', ''year'', ''season_type'']
          [[AStr ''Aaron Rodgers'', AInt 84, AInt 2020, AStr ''regular'']])),
        \<lparr>years = PList [AInt 2020], weeks = PList [AInt 1], season_type = PList [AInt 2],
         stat_type = ''weekly''\<rparr>,
        \<lparr>out = [msg_nodata],
         requests = [''https://www.espn.com/nfl/qbr/_/view/weekly/season/2020/seasontype/2/week/1'']\<rparr>)"
proof -
  let ?F = "\<lambda>url :: string. Inr sample_page :: exn + table list"
  let ?Q = "Qbr_init (Atom (AInt 2020)) (Atom (AInt 1)) ''regular'' ''weekly''"
  let ?w2 = "\<lparr>out = [msg_nodata], requests = []\<rparr>"
  have e1: "load_qbr ?F ?Q world0
     = (Inr (Frame (DataFrame [''NAME'', ''QBR'', ''year'', ''season_type'']
          [[AStr ''Aaron Rodgers'', AInt 84, AInt 2020, AStr ''regular'']])),
        \<lparr>years = PList [AInt 2020], weeks = PList [AInt 1], season_type = PList [AInt 2],
         stat_type = ''weekly''\<rparr>,
        \<lparr>out = [],
         requests = [''https://www.espn.com/nfl/qbr/_/view/weekly/season/2020/seasontype/2/week/1'']\<rparr>)"
    by (simp add: load_eval py_string_eval url_eval frame_eval)
  obtain r2 self2 w2' where e2: "load_qbr ?F ?Q ?w2 = (r2, self2, w2')"
    by (cases "load_qbr ?F ?Q ?w2") auto
  from fresh_requests_agree [OF e1 e2] obtain d where
    "r2 = Inr (Frame (DataFrame [''NAME'', ''QBR'', ''year'', ''season_type'']
          [[AStr ''Aaron Rodgers'', AInt 84, AInt 2020, AStr ''regular'']]))"
    "self2 = \<lparr>years = PList [AInt 2020], weeks = PList [AInt 1], season_type = PList [AInt 2],
         stat_type = ''weekly''\<rparr>"
    "\<lparr>out = [],
         requests = [''https://www.espn.com/nfl/qbr/_/view/weekly/season/2020/seasontype/2/week/1'']\<rparr> = extend world0 d"
    "w2' = extend ?w2 d"
    by auto
  then show ?thesis using e1 e2 by (simp add: extend_def world0_def)
qed

section \<open>The weekly loops as a run over the triples\<close>

lemma run_triples_append:
  "run_triples fetch (ts @ us) st =
     (case run_triples fetch ts st of
        (Some e, st1) \<Rightarrow> (Some e, st1)
      | (None, st1) \<Rightarrow> run_triples fetch us st1)"
proof (induction ts arbitrary: st)
  case Nil
  show ?case by simp
next
  case (Cons t ts)
  obtain s y k where t: "t = (s, y, k)" by (cases t)
  obtain r1 st1 where p: "weekly_page fetch s y k st = (r1, st1)"
    by (cases "weekly_page fetch s y k st") auto
  show ?case by (cases r1) (simp_all add: t p Cons.IH)
qed

lemma for_week_triples:
  "for_week fetch s y ks st = run_triples fetch (map (\<lambda>k. (s, y, k)) ks) st"
proof (induction ks arbitrary: st)
  case Nil
  show ?case by simp
next
  case (Cons k ks)
  obtain r1 st1 where p: "weekly_page fetch s y k st = (r1, st1)"
    by (cases "weekly_page fetch s y k st") auto
  show ?case by (cases r1) (simp_all add: p Cons.IH)
qed

lemma for_year_triples:
  "for_year fetch s (PList ks) ys st
     = run_triples fetch (concat (map (\<lambda>y. map (\<lambda>k. (s, y, k)) ks) ys)) st"
proof (induction ys arbitrary: st)
  case Nil
  show ?case by simp
next
  case (Cons y ys)
  obtain r1 st1 where p: "run_triples fetch (map (\<lambda>k. (s, y, k)) ks) st = (r1, st1)"
    by (cases "run_triples fetch (map (\<lambda>k. (s, y, k)) ks) st") auto
  show ?case by (cases r1) (simp_all add: for_week_triples run_triples_append p Cons.IH)
qed

lemma for_season_id_triples:
  "for_season_id fetch (PList ys) (PList ks) ss st
     = run_triples fetch (weekly_triples ss ys ks) st"
proof (induction ss arbitrary: st)
  case Nil
  show ?case by (simp add: weekly_triples_def)
next
  case (Cons s ss)
  obtain r1 st1 where p:
    "run_triples fetch (concat (map (\<lambda>y. map (\<lambda>k. (s, y, k)) ks) ys)) st = (r1, st1)"
    by (cases "run_triples fetch (concat (map (\<lambda>y. map (\<lambda>k. (s, y, k)) ks) ys)) st") auto
  have "weekly_triples (s # ss) ys ks
          = concat (map (\<lambda>y. map (\<lambda>k. (s, y, k)) ks) ys) @ weekly_triples ss ys ks"
    by (simp add: weekly_triples_def)
  then show ?case
    by (cases r1) (simp_all add: for_year_triples run_triples_append p Cons.IH)
qed

lemma weekly_loops_triples:
  "weekly_loops fetch (PList ys) (PList ks) (PList ss) w
     = run_triples fetch (weekly_triples ss ys ks) ([], w)"
  by (simp add: weekly_loops_def for_season_id_triples)

section \<open>A page that fails in the weekly loop\<close>

text \<open>
  C2, as stated, fails.  For weeks 1 and 2 of the regular season of 2020, let the read
  of the page of week 1 raise \<^verbatim>\<open>ImportError\<close> while every other page can be read.
  The diagnostic is printed and the loop is over: the page of week 2 is never
  requested, and the result is the empty list.
\<close>

theorem failed_page_ends_batch:
  "load_qbr week1_fails
      (Qbr_init (Atom (AInt 2020)) (PList [AInt 1, AInt 2]) ''regular'' ''weekly'') world0
     = (Inr EmptyList,
        \<lparr>years = PList [AInt 2020], weeks = PList [AInt 1, AInt 2], season_type = PList [AInt 2],
         stat_type = ''weekly''\<rparr>,
        \<lparr>out = [msg_week4, msg_nodata],
         requests = [''https://www.espn.com/nfl/qbr/_/view/weekly/season/2020/seasontype/2/week/1'']\<rparr>) \<and>
   week1_fails (weekly_url (AInt 2020) (AInt 2) (AInt 2)) = Inr sample_page \<and>
   weekly_url (AInt 2020) (AInt 2) (AInt 2)
     \<notin> set [''https://www.espn.com/nfl/qbr/_/view/weekly/season/2020/seasontype/2/week/1'']"
  by (simp add: week1_fails_def load_eval py_string_eval url_eval frame_eval)

text \<open>
  C2, amended.  The three loops visit the triples in the order season code, year, week.
  When the triples before one of them were skipped or read, and reading the page of
  that one raises \<^verbatim>\<open>ImportError\<close> or \<^verbatim>\<open>TypeError\<close>, the loop ends there: the failing
  address is the last one requested, the diagnostic of the exception is printed (the
  note on week 4 for \<^verbatim>\<open>ImportError\<close>, the parameter message for \<^verbatim>\<open>TypeError\<close>), and the
  result is bound from the tables collected before.  The triples after it are not
  visited.
\<close>

theorem weekly_loop_stops_at_failure:
  assumes "weekly_triples ss ys ks = pre @ (s, y, k) # post"
      and "run_triples fetch pre ([], w) = (None, df, w1)"
      and "\<not> (py_eq_int s 3 \<and> py_eq_int k 4)"
      and "fetch (weekly_url y s k) = Inl e"
      and "e = ImportError \<or> e = TypeError"
  shows "load_weekly_qbr fetch (PList ys) (PList ks) (PList ss) w
           = row_bind df (print (if e = ImportError then msg_week4 else msg_params)
               (w1\<lparr>requests := requests w1 @ [weekly_url y s k]\<rparr>)) \<and>
         requests (snd (load_weekly_qbr fetch (PList ys) (PList ks) (PList ss) w))
           = requests w1 @ [weekly_url y s k]"
proof -
  have page: "weekly_page fetch s y k (df, w1)
                = (Some e, df, w1\<lparr>requests := requests w1 @ [weekly_url y s k]\<rparr>)"
    using assms(3,4) by (auto simp: weekly_page_def read_html_def)
  have "weekly_loops fetch (PList ys) (PList ks) (PList ss) w
          = run_triples fetch (pre @ (s, y, k) # post) ([], w)"
    by (simp add: weekly_loops_triples assms(1))
  also have "\<dots> = (Some e, df, w1\<lparr>requests := requests w1 @ [weekly_url y s k]\<rparr>)"
    by (simp add: run_triples_append assms(2) page)
  finally have loops: "weekly_loops fetch (PList ys) (PList ks) (PList ss) w
          = (Some e, df, w1\<lparr>requests := requests w1 @ [weekly_url y s k]\<rparr>)" .
  have res: "load_weekly_qbr fetch (PList ys) (PList ks) (PList ss) w
           = row_bind df (print (if e = ImportError then msg_week4 else msg_params)
               (w1\<lparr>requests := requests w1 @ [weekly_url y s k]\<rparr>))"
    using assms(5) by (auto simp: load_weekly_qbr_def loops)
  have "requests (snd (row_bind df (print (if e = ImportError then msg_week4 else msg_params)
               (w1\<lparr>requests := requests w1 @ [weekly_url y s k]\<rparr>))))
          = requests w1 @ [weekly_url y s k]"
    by (simp add: row_bind_def print_def split: sum.splits)
  with res show ?thesis by simp
qed


theorem weekly_loop_stops_at_failure_witness:
  "weekly_triples [AInt 2] [AInt 2020] [AInt 1, AInt 2, AInt 3]
     = [(AInt 2, AInt 2020, AInt 1)] @ (AInt 2, AInt 2020, AInt 2) # [(AInt 2, AInt 2020, AInt 3)] \<and>
   week2_fails (weekly_url (AInt 2020) (AInt 2) (AInt 2)) = Inl ImportError \<and>
   week2_fails (weekly_url (AInt 2020) (AInt 2) (AInt 3)) = Inr sample_page \<and>
   load_weekly_qbr week2_fails (PList [AInt 2020]) (PList [AInt 1, AInt 2, AInt 3])
       (PList [AInt 2]) world0
     = (Inr (Frame (DataFrame [''NAME'', ''QBR'', ''year'', ''season_type'']
          [[AStr ''Aaron Rodgers'', AInt 84, AInt 2020, AStr ''regular'']])),
        \<lparr>out = [msg_week4],
         requests =
           [''https://www.espn.com/nfl/qbr/_/view/weekly/season/2020/seasontype/2/week/1'',
            ''https://www.espn.com/nfl/qbr/_/view/weekly/season/2020/seasontype/2/week/2'']\<rparr>)"
proof -
  have h1: "weekly_triples [AInt 2] [AInt 2020] [AInt 1, AInt 2, AInt 3]
     = [(AInt 2, AInt 2020, AInt 1)] @ (AInt 2, AInt 2020, AInt 2) # [(AInt 2, AInt 2020, AInt 3)]"
    by (simp add: weekly_triples_def)
  have h2: "run_triples week2_fails [(AInt 2, AInt 2020, AInt 1)] ([], world0)
     = (None,
        [DataFrame [''NAME'', ''QBR'', ''year'', ''season_type'']
           [[AStr ''Aaron Rodgers'', AInt 84, AInt 2020, AStr ''regular'']]],
        \<lparr>out = [],
         requests =
           [''https://www.espn.com/nfl/qbr/_/view/weekly/season/2020/seasontype/2/week/1'']\<rparr>)"
    by (simp add: week2_fails_def load_eval url_eval frame_eval)
  have h3: "\<not> (py_eq_int (AInt 2) 3 \<and> py_eq_int (AInt 2) 4)" by simp
  have h4: "week2_fails (weekly_url (AInt 2020) (AInt 2) (AInt 2)) = Inl ImportError"
    by (simp add: week2_fails_def url_eval)
  have h5: "ImportError = ImportError \<or> ImportError = TypeError" by simp
  have h6: "week2_fails (weekly_url (AInt 2020) (AInt 2) (AInt 3)) = Inr sample_page"
    by (simp add: week2_fails_def url_eval)
  have u: "weekly_url (AInt 2020) (AInt 2) (AInt 2)
     = ''https://www.espn.com/nfl/qbr/_/view/weekly/season/2020/seasontype/2/week/2''"
    by (simp add: url_eval)
  from weekly_loop_stops_at_failure [OF h1 h2 h3 h4 h5] h1 h4 h6 show ?thesis
    by (simp add: u row_bind_def print_def)
qed


section \<open>The columns added to the weekly pages\<close>

lemma cell_of_Cons:
  "cell_of (l # cols) (c # r) label = (if l = label then c else cell_of cols r label)"
  by (simp add: cell_of_def)

lemma cell_of_overwrite_same:
  "length r = length cols \<Longrightarrow> label \<in> set cols \<Longrightarrow>
   cell_of cols (map (\<lambda>(l, c). if l = label then v else c) (zip cols r)) label = v"
proof (induction cols arbitrary: r)
  case Nil
  then show ?case by simp
next
  case (Cons l cols)
  then obtain c r' where r: "r = c # r'" by (cases r) auto
  with Cons show ?case by (auto simp: cell_of_Cons)
qed

lemma cell_of_overwrite_other:
  "length r = length cols \<Longrightarrow> label' \<noteq> label \<Longrightarrow>
   cell_of cols (map (\<lambda>(l, c). if l = label then v else c) (zip cols r)) label'
     = cell_of cols r label'"
proof (induction cols arbitrary: r)
  case Nil
  then show ?case by simp
next
  case (Cons l cols)
  then obtain c r' where r: "r = c # r'" by (cases r) auto
  with Cons show ?case by (auto simp: cell_of_Cons)
qed

lemma cell_of_append_same:
  "length r = length cols \<Longrightarrow> label \<notin> set cols \<Longrightarrow>
   cell_of (cols @ [label]) (r @ [v]) label = v"
proof (induction cols arbitrary: r)
  case Nil
  then show ?case by (simp add: cell_of_def)
next
  case (Cons l cols)
  then obtain c r' where r: "r = c # r'" by (cases r) auto
  with Cons show ?case by (auto simp: cell_of_Cons)
qed

lemma cell_of_append_other:
  "length r = length cols \<Longrightarrow> label' \<noteq> label \<Longrightarrow>
   cell_of (cols @ [label]) (r @ [v]) label' = cell_of cols r label'"
proof (induction cols arbitrary: r)
  case Nil
  then show ?case by (simp add: cell_of_def)
next
  case (Cons l cols)
  then obtain c r' where r: "r = c # r'" by (cases r) auto
  with Cons show ?case by (auto simp: cell_of_Cons)
qed

lemma set_column_rectangular: "rectangular t \<Longrightarrow> rectangular (set_column label v t)"
  by (auto simp: rectangular_def set_column_def list_all_iff)

lemma set_column_length: "length (rows (set_column label v t)) = length (rows t)"
  by (simp add: set_column_def)

lemma set_column_same:
  "rectangular t \<Longrightarrow> r \<in> set (rows (set_column label v t)) \<Longrightarrow>
   cell_of (columns (set_column label v t)) r label = v"
  by (auto simp: rectangular_def set_column_def list_all_iff
      cell_of_overwrite_same cell_of_append_same)

lemma set_column_other:
  "rectangular t \<Longrightarrow> label' \<noteq> label \<Longrightarrow>
   list_all (\<lambda>r. cell_of (columns t) r label' = c) (rows t) \<Longrightarrow>
   list_all (\<lambda>r. cell_of (columns (set_column label v t)) r label' = c)
     (rows (set_column label v t))"
  by (auto simp: rectangular_def set_column_def list_all_iff
      cell_of_overwrite_other cell_of_append_other)

lemma count_list_set_column:
  "count_list (columns (set_column label v t)) label
     = (if label \<in> set (columns t) then count_list (columns t) label else 1)"
  by (auto simp: set_column_def count_list_0_iff)

lemma count_list_set_column_other:
  "label' \<noteq> label \<Longrightarrow>
   count_list (columns (set_column label v t)) label' = count_list (columns t) label'"
  by (auto simp: set_column_def)

lemma zip_map_self: "zip (map g xs) xs = map (\<lambda>x. (g x, x)) xs"
  by (induction xs) auto


lemma iter_column_single:
  assumes "count_list (columns t) label = 1"
      and "list_all (\<lambda>r. cell_of (columns t) r label = c) (rows t)"
  shows "iter_column label t = Inr (map (\<lambda>r. c) (rows t))"
  using assms by (simp add: iter_column_def list_all_iff)

lemma set_column_list_single:
  assumes "count_list (columns t) label = 1"
  shows "set_column_list label (map (\<lambda>r. v) (rows t)) t = Inr (set_column label v t)"
proof -
  from assms have "label \<in> set (columns t)"
    using count_list_0_iff [of "columns t" label] by auto
  moreover have "zip (map (\<lambda>r. v) (rows t)) (rows t) = map (\<lambda>r. (v, r)) (rows t)"
    by (rule zip_map_self)
  ultimately show ?thesis
    using assms by (simp add: set_column_list_def set_column_def o_def)
qed

text \<open>
  X3.  A page of the weekly loop that is read, whose tables bound side by side are
  rectangular and have at most one column labelled \<^verbatim>\<open>season_type\<close>: the loop body
  collects one table with the rows of the page, and every row of it has the year of the
  iteration in the column \<^verbatim>\<open>year\<close> and the label of the season code in the column
  \<^verbatim>\<open>season_type\<close>, \<^verbatim>\<open>'regular'\<close> for the code 2 and \<^verbatim>\<open>'postseason'\<close> for any other.
\<close>

theorem weekly_page_stamps_rows:
  assumes "\<not> (py_eq_int s 3 \<and> py_eq_int k 4)"
      and "fetch (weekly_url y s k) = Inr dfs" and "pd_concat_axis1 dfs = Inr t"
      and "rectangular t" and "count_list (columns t) ''season_type'' \<le> 1"
  shows "\<exists>t3. weekly_page fetch s y k (df, w)
                 = (None, df @ [t3], w\<lparr>requests := requests w @ [weekly_url y s k]\<rparr>) \<and>
              length (rows t3) = length (rows t) \<and>
              ''year'' \<in> set (columns t3) \<and> ''season_type'' \<in> set (columns t3) \<and>
              list_all (\<lambda>r. cell_of (columns t3) r ''year'' = y \<and>
                             cell_of (columns t3) r ''season_type'' = season_label s) (rows t3)"
proof -
  let ?stg1 = "set_column ''year'' y t"
  let ?stg2 = "set_column ''season_type'' s ?stg1"
  let ?stg3 = "set_column ''season_type'' (season_label s) ?stg2"
  have r1: "rectangular ?stg1" using assms(4) by (rule set_column_rectangular)
  then have r2: "rectangular ?stg2" by (rule set_column_rectangular)
  have y1: "list_all (\<lambda>r. cell_of (columns ?stg1) r ''year'' = y) (rows ?stg1)"
    using set_column_same [OF assms(4)] by (simp add: list_all_iff)
  have y2: "list_all (\<lambda>r. cell_of (columns ?stg2) r ''year'' = y) (rows ?stg2)"
    using r1 _ y1 by (rule set_column_other) simp
  have y3: "list_all (\<lambda>r. cell_of (columns ?stg3) r ''year'' = y) (rows ?stg3)"
    using r2 _ y2 by (rule set_column_other) simp
  have s2: "list_all (\<lambda>r. cell_of (columns ?stg2) r ''season_type'' = s) (rows ?stg2)"
    using set_column_same [OF r1] by (simp add: list_all_iff)
  have s3: "list_all (\<lambda>r. cell_of (columns ?stg3) r ''season_type'' = season_label s) (rows ?stg3)"
    using set_column_same [OF r2] by (simp add: list_all_iff)
  have "count_list (columns ?stg1) ''season_type'' = count_list (columns t) ''season_type''"
    by (rule count_list_set_column_other) simp
  with assms(5) have c2: "count_list (columns ?stg2) ''season_type'' = 1"
    using count_list_0_iff [of "columns ?stg1" "''season_type''"]
    by (auto simp: count_list_set_column)
  have it: "iter_column ''season_type'' ?stg2 = Inr (map (\<lambda>r. s) (rows ?stg2))"
    using c2 s2 by (rule iter_column_single)
  have st: "set_column_list ''season_type'' (map (\<lambda>r. season_label s) (rows ?stg2)) ?stg2
              = Inr ?stg3"
    using c2 by (rule set_column_list_single)
  have "weekly_page fetch s y k (df, w)
          = (None, df @ [?stg3], w\<lparr>requests := requests w @ [weekly_url y s k]\<rparr>)"
    using assms(1,2,3) by (simp add: weekly_page_def read_html_def it st o_def)
  moreover have "length (rows ?stg3) = length (rows t)" by (simp add: set_column_length)
  moreover have "''year'' \<in> set (columns ?stg3) \<and> ''season_type'' \<in> set (columns ?stg3)"
    by (simp add: set_column_def)
  moreover have "list_all (\<lambda>r. cell_of (columns ?stg3) r ''year'' = y \<and>
                     cell_of (columns ?stg3) r ''season_type'' = season_label s) (rows ?stg3)"
    using y3 s3 by (simp add: list_all_iff)
  ultimately show ?thesis by blast
qed

theorem weekly_page_stamps_rows_witness:
  "weekly_page (\<lambda>url. Inr sample_page) (AInt 2) (AInt 2020) (AInt 1) ([], world0)
     = (None,
        [DataFrame [''NAME'', ''QBR'', ''year'', ''season_type'']
           [[AStr ''Aaron Rodgers'', AInt 84, AInt 2020, AStr ''regular'']]],
        \<lparr>out = [],
         requests =
           [''https://www.espn.com/nfl/qbr/_/view/weekly/season/2020/seasontype/2/week/1'']\<rparr>) \<and>
   season_label (AInt 2) = AStr ''regular'' \<and> season_label (AInt 3) = AStr ''postseason''"
proof -
  have h1: "\<not> (py_eq_int (AInt 2) 3 \<and> py_eq_int (AInt 1) 4)" by simp
  have h3: "pd_concat_axis1 sample_page
              = Inr (DataFrame [''NAME'', ''QBR''] [[AStr ''Aaron Rodgers'', AInt 84]])"
    by (simp add: sample_page_def bind_columns_def)
  have h4: "rectangular (DataFrame [''NAME'', ''QBR''] [[AStr ''Aaron Rodgers'', AInt 84]])"
    by (simp add: rectangular_def)
  have h5: "count_list (columns (DataFrame [''NAME'', ''QBR''] [[AStr ''Aaron Rodgers'', AInt 84]]))
              ''season_type'' \<le> 1"
    by simp
  have e: "weekly_page (\<lambda>url. Inr sample_page) (AInt 2) (AInt 2020) (AInt 1) ([], world0)
     = (None,
        [DataFrame [''NAME'', ''QBR'', ''year'', ''season_type'']
           [[AStr ''Aaron Rodgers'', AInt 84, AInt 2020, AStr ''regular'']]],
        \<lparr>out = [],
         requests =
           [''https://www.espn.com/nfl/qbr/_/view/weekly/season/2020/seasontype/2/week/1'']\<rparr>)"
    by (simp add: load_eval url_eval frame_eval)
  have h2: "(\<lambda>url. Inr sample_page) (weekly_url (AInt 2020) (AInt 2) (AInt 1)) = Inr sample_page"
    by simp
  from weekly_page_stamps_rows [OF h1 h2 h3 h4 h5, where df = "[]" and w = world0] e
  show ?thesis by (simp add: season_label_def)
qed

lemma bind_rows_lengths:
  "list_all (\<lambda>r. length r = m) xs \<Longrightarrow> list_all (\<lambda>r. length r = n) ys \<Longrightarrow>
   list_all (\<lambda>r. length r = m + n) (bind_rows m n xs ys)"
  by (induction m n xs ys rule: bind_rows.induct) auto

lemma bind_columns_plain:
  assumes "rectangular a \<and> l \<notin> set (columns a)" and "rectangular b \<and> l \<notin> set (columns b)"
  shows "rectangular (bind_columns a b) \<and> l \<notin> set (columns (bind_columns a b))"
  using assms bind_rows_lengths [of "length (columns a)" "rows a" "length (columns b)" "rows b"]
  by (simp add: rectangular_def bind_columns_def)

lemma foldl_bind_columns_plain:
  "rectangular t \<and> l \<notin> set (columns t) \<Longrightarrow>
   list_all (\<lambda>u. rectangular u \<and> l \<notin> set (columns u)) ts \<Longrightarrow>
   rectangular (foldl bind_columns t ts) \<and> l \<notin> set (columns (foldl bind_columns t ts))"
proof (induction ts arbitrary: t)
  case Nil
  then show ?case by simp
next
  case (Cons u ts)
  from Cons.prems have "rectangular (bind_columns t u) \<and> l \<notin> set (columns (bind_columns t u))"
    by (intro bind_columns_plain) simp_all
  moreover from Cons.prems have "list_all (\<lambda>u. rectangular u \<and> l \<notin> set (columns u)) ts" by simp
  ultimately show ?case using Cons.IH by simp
qed

lemma pd_concat_axis1_plain:
  assumes "pd_concat_axis1 dfs = Inr t"
      and "list_all (\<lambda>u. rectangular u \<and> l \<notin> set (columns u)) dfs"
  shows "rectangular t \<and> l \<notin> set (columns t)"
proof (cases dfs)
  case Nil
  with assms(1) show ?thesis by simp
next
  case (Cons u us)
  with assms show ?thesis using foldl_bind_columns_plain [of u l us] by auto
qed

lemma weekly_page_stamped:
  assumes "plain_pages fetch" and "weekly_page fetch s y k (df, w) = (r, df', w')"
      and "list_all (stamped Y L) df" and "y \<in> Y" and "season_label s \<in> L"
  shows "list_all (stamped Y L) df'"
proof (cases "py_eq_int s 3 \<and> py_eq_int k 4")
  case True
  with assms(2,3) show ?thesis by (simp add: weekly_page_def)
next
  case skip: False
  show ?thesis
  proof (cases "fetch (weekly_url y s k)")
    case (Inl e)
    with assms(2,3) skip show ?thesis by (auto simp: weekly_page_def read_html_def)
  next
    case (Inr dfs)
    show ?thesis
    proof (cases "pd_concat_axis1 dfs")
      case (Inl e)
      with assms(2,3) skip Inr show ?thesis by (auto simp: weekly_page_def read_html_def)
    next
      case bound: (Inr t)
      from assms(1) Inr have
        "list_all (\<lambda>t. rectangular t \<and> ''season_type'' \<notin> set (columns t)) dfs"
        by (auto simp: plain_pages_def)
      with bound have t: "rectangular t \<and> ''season_type'' \<notin> set (columns t)"
        by (rule pd_concat_axis1_plain)
      then have c: "count_list (columns t) ''season_type'' \<le> 1"
        by (simp add: count_list_0_iff [THEN iffD2])
      from weekly_page_stamps_rows [where fetch = fetch and df = df and w = w,
             OF skip Inr bound conjunct1 [OF t] c]
      obtain t3 where p: "weekly_page fetch s y k (df, w)
                 = (None, df @ [t3], w\<lparr>requests := requests w @ [weekly_url y s k]\<rparr>)"
        and cols: "''year'' \<in> set (columns t3) \<and> ''season_type'' \<in> set (columns t3)"
        and cells: "list_all (\<lambda>r. cell_of (columns t3) r ''year'' = y \<and>
                             cell_of (columns t3) r ''season_type'' = season_label s) (rows t3)"
        by blast
      from cells assms(4,5) cols have "stamped Y L t3" by (auto simp: stamped_def list_all_iff)
      with p assms(2,3) show ?thesis by simp
    qed
  qed
qed

lemma for_week_stamped:
  assumes "plain_pages fetch" and "for_week fetch s y ks (df, w) = (r, df', w')"
      and "list_all (stamped Y L) df" and "y \<in> Y" and "season_label s \<in> L"
  shows "list_all (stamped Y L) df'"
  using assms(2,3)
proof (induction ks arbitrary: df w)
  case Nil
  then show ?case by simp
next
  case (Cons k ks)
  obtain r1 df1 w1 where p: "weekly_page fetch s y k (df, w) = (r1, df1, w1)"
    by (cases "weekly_page fetch s y k (df, w)") auto
  have a: "list_all (stamped Y L) df1"
    using assms(1) p Cons.prems(2) assms(4,5) by (rule weekly_page_stamped)
  show ?case
  proof (cases r1)
    case None
    with Cons.prems(1) p have "for_week fetch s y ks (df1, w1) = (r, df', w')" by simp
    then show ?thesis using a by (rule Cons.IH)
  next
    case (Some e)
    with Cons.prems(1) p a show ?thesis by simp
  qed
qed

lemma for_year_stamped:
  assumes "plain_pages fetch" and "for_year fetch s wks ys (df, w) = (r, df', w')"
      and "list_all (stamped Y L) df" and "set ys \<subseteq> Y" and "season_label s \<in> L"
  shows "list_all (stamped Y L) df'"
  using assms(2,3,4)
proof (induction ys arbitrary: df w)
  case Nil
  then show ?case by simp
next
  case (Cons y ys)
  show ?case
  proof (cases "py_iter wks")
    case (Inl e)
    with Cons.prems(1,2) show ?thesis by simp
  next
    case (Inr ks)
    obtain r1 df1 w1 where p: "for_week fetch s y ks (df, w) = (r1, df1, w1)"
      by (cases "for_week fetch s y ks (df, w)") auto
    from Cons.prems(3) have y: "y \<in> Y" by simp
    have a: "list_all (stamped Y L) df1"
      using assms(1) p Cons.prems(2) y assms(5) by (rule for_week_stamped)
    show ?thesis
    proof (cases r1)
      case None
      with Cons.prems(1) p Inr have "for_year fetch s wks ys (df1, w1) = (r, df', w')" by simp
      then show ?thesis using a Cons.prems(3) by (intro Cons.IH) simp_all
    next
      case (Some e)
      with Cons.prems(1) p a Inr show ?thesis by simp
    qed
  qed
qed

lemma for_season_id_stamped:
  assumes "plain_pages fetch" and "for_season_id fetch (PList ys) wks ss (df, w) = (r, df', w')"
      and "list_all (stamped Y L) df" and "set ys \<subseteq> Y" and "season_label ` set ss \<subseteq> L"
  shows "list_all (stamped Y L) df'"
  using assms(2,3,5)
proof (induction ss arbitrary: df w)
  case Nil
  then show ?case by simp
next
  case (Cons s ss)
  obtain r1 df1 w1 where p: "for_year fetch s wks ys (df, w) = (r1, df1, w1)"
    by (cases "for_year fetch s wks ys (df, w)") auto
  from Cons.prems(3) have s: "season_label s \<in> L" by simp
  have a: "list_all (stamped Y L) df1"
    using assms(1) p Cons.prems(2) assms(4) s by (rule for_year_stamped)
  show ?case
  proof (cases r1)
    case None
    with Cons.prems(1) p have "for_season_id fetch (PList ys) wks ss (df1, w1) = (r, df', w')"
      by simp
    then show ?thesis using a Cons.prems(3) by (intro Cons.IH) simp_all
  next
    case (Some e)
    with Cons.prems(1) p a show ?thesis by simp
  qed
qed

lemma map_of_zip_map: "label \<in> set new \<Longrightarrow> map_of (zip new (map f new)) label = Some (f label)"
  by (induction new) auto

lemma cell_of_reindex:
  assumes "label \<in> set new"
  shows "cell_of new (reindex cols new r) label = cell_of cols r label"
proof -
  have "cell_of new (map (cell_of cols r) new) label
          = (case map_of (zip new (map (cell_of cols r) new)) label of
               Some c \<Rightarrow> c | None \<Rightarrow> ANaN)"
    by (simp only: cell_of_def)
  also have "\<dots> = cell_of cols r label"
    by (simp only: map_of_zip_map [OF assms] option.case)
  finally show ?thesis by (simp only: reindex_def)
qed

lemma set_union_labels: "set (union_labels ls) = set ls"
  by (simp add: union_labels_def)

lemma stamped_rows:
  assumes "stamped Y L v" and "r \<in> set (rows v)"
  shows "cell_of (columns v) r ''year'' \<in> Y \<and> cell_of (columns v) r ''season_type'' \<in> L"
  using assms by (simp add: stamped_def list_all_iff)

lemma stamped_labels:
  assumes "stamped Y L v"
  shows "''year'' \<in> set (columns v)" and "''season_type'' \<in> set (columns v)"
  using assms by (simp_all add: stamped_def)

lemma pd_concat_ignore_index_stamped:
  assumes "pd_concat_ignore_index df = Inr t" and "list_all (stamped Y L) df"
  shows "list_all (\<lambda>r. cell_of (columns t) r ''year'' \<in> Y \<and>
                       cell_of (columns t) r ''season_type'' \<in> L) (rows t)"
proof (cases df)
  case Nil
  with assms(1) show ?thesis by simp
next
  case (Cons u us)
  have st: "\<And>v. v \<in> set (u # us) \<Longrightarrow> stamped Y L v"
    using assms(2) Cons by (auto simp: list_all_iff)
  show ?thesis
  proof (cases "list_all (\<lambda>v. columns v = columns u) us")
    case True
    with assms(1) Cons have t: "t = DataFrame (columns u) (concat (map rows (u # us)))"
      by simp
    have same: "\<And>v. v \<in> set (u # us) \<Longrightarrow> columns v = columns u"
      using True by (auto simp: list_all_iff)
    show ?thesis
      unfolding list_all_iff
    proof
      fix r
      assume "r \<in> set (rows t)"
      then obtain v where v: "v \<in> set (u # us)" and r: "r \<in> set (rows v)"
        unfolding t by auto
      from stamped_rows [OF st [OF v] r] same [OF v]
      show "cell_of (columns t) r ''year'' \<in> Y \<and> cell_of (columns t) r ''season_type'' \<in> L"
        unfolding t by simp
    qed
  next
    case False
    define new where "new = union_labels (concat (map columns (u # us)))"
    from False assms(1) Cons have
      t: "t = DataFrame new (concat (map (\<lambda>v. map (reindex (columns v) new) (rows v)) (u # us)))"
      by (simp add: new_def Let_def split: if_splits)
    have mem: "\<And>v l. v \<in> set (u # us) \<Longrightarrow> l \<in> set (columns v) \<Longrightarrow> l \<in> set new"
      unfolding new_def set_union_labels by auto
    show ?thesis
      unfolding list_all_iff
    proof
      fix r
      assume "r \<in> set (rows t)"
      then obtain v r0 where v: "v \<in> set (u # us)" and r0: "r0 \<in> set (rows v)"
        and r: "r = reindex (columns v) new r0"
        unfolding t by auto
      have y: "''year'' \<in> set new" and s: "''season_type'' \<in> set new"
        using mem [OF v] stamped_labels [OF st [OF v]] by blast+
      from stamped_rows [OF st [OF v] r0]
      show "cell_of (columns t) r ''year'' \<in> Y \<and> cell_of (columns t) r ''season_type'' \<in> L"
        unfolding t r by (simp add: cell_of_reindex [OF y] cell_of_reindex [OF s])
    qed
  qed
qed

text \<open>
  X4.  A weekly request over plain pages: when the loader returns a table, every row
  of it has one of the requested years in the column \<^verbatim>\<open>year\<close> and the label of one of
  the season codes of the request in the column \<^verbatim>\<open>season_type\<close>.  So the rows of a
  request for the regular season alone are all \<^verbatim>\<open>'regular'\<close>.
\<close>

theorem weekly_rows_of_plain_pages:
  assumes "plain_pages fetch"
      and "load_weekly_qbr fetch (PList ys) wks (PList ss) w = (Inr (Frame t), w1)"
  shows "list_all (\<lambda>r. cell_of (columns t) r ''year'' \<in> set ys \<and>
                       cell_of (columns t) r ''season_type'' \<in> season_label ` set ss) (rows t)"
proof -
  obtain r df w2 where l: "weekly_loops fetch (PList ys) wks (PList ss) w = (r, df, w2)"
    by (cases "weekly_loops fetch (PList ys) wks (PList ss) w") auto
  then have "for_season_id fetch (PList ys) wks ss ([], w) = (r, df, w2)"
    by (simp add: weekly_loops_def)
  with assms(1) have a: "list_all (stamped (set ys) (season_label ` set ss)) df"
    by (rule for_season_id_stamped) simp_all
  from assms(2) l obtain w3 where "row_bind df w3 = (Inr (Frame t), w1)"
    by (auto simp: load_weekly_qbr_def split: option.splits if_splits)
  then have "pd_concat_ignore_index df = Inr t"
    by (auto simp: row_bind_def split: sum.splits if_splits)
  then show ?thesis using a by (rule pd_concat_ignore_index_stamped)
qed

theorem weekly_rows_of_plain_pages_witness:
  "plain_pages (\<lambda>url. Inr sample_page) \<and>
   load_weekly_qbr (\<lambda>url. Inr sample_page) (PList [AInt 2020]) (PList [AInt 1, AInt 2])
       (PList [AInt 2]) world0
     = (Inr (Frame (DataFrame [''NAME'', ''QBR'', ''year'', ''season_type'']
          [[AStr ''Aaron Rodgers'', AInt 84, AInt 2020, AStr ''regular''],
           [AStr ''Aaron Rodgers'', AInt 84, AInt 2020, AStr ''regular'']])),
        \<lparr>out = [],
         requests =
           [''https://www.espn.com/nfl/qbr/_/view/weekly/season/2020/seasontype/2/week/1'',
            ''https://www.espn.com/nfl/qbr/_/view/weekly/season/2020/seasontype/2/week/2'']\<rparr>) \<and>
   season_label ` set [AInt 2] = {AStr ''regular''} \<and>
   list_all (\<lambda>r. cell_of [''NAME'', ''QBR'', ''year'', ''season_type''] r ''year'' \<in> set [AInt 2020] \<and>
                  cell_of [''NAME'', ''QBR'', ''year'', ''season_type''] r ''season_type''
                    \<in> season_label ` set [AInt 2])
     [[AStr ''Aaron Rodgers'', AInt 84, AInt 2020, AStr ''regular''],
      [AStr ''Aaron Rodgers'', AInt 84, AInt 2020, AStr ''regular'']]"
proof -
  have h1: "plain_pages (\<lambda>url. Inr sample_page)"
    by (simp add: plain_pages_def sample_page_def rectangular_def)
  have h2: "load_weekly_qbr (\<lambda>url. Inr sample_page) (PList [AInt 2020]) (PList [AInt 1, AInt 2])
       (PList [AInt 2]) world0
     = (Inr (Frame (DataFrame [''NAME'', ''QBR'', ''year'', ''season_type'']
          [[AStr ''Aaron Rodgers'', AInt 84, AInt 2020, AStr ''regular''],
           [AStr ''Aaron Rodgers'', AInt 84, AInt 2020, AStr ''regular'']])),
        \<lparr>out = [],
         requests =
           [''https://www.espn.com/nfl/qbr/_/view/weekly/season/2020/seasontype/2/week/1'',
            ''https://www.espn.com/nfl/qbr/_/view/weekly/season/2020/seasontype/2/week/2'']\<rparr>)"
    by (simp add: load_eval url_eval frame_eval)
  have h3: "season_label ` set [AInt 2] = {AStr ''regular''}"
    by (simp add: season_label_def)
  from weekly_rows_of_plain_pages [OF h1 h2] h1 h2 h3 show ?thesis by simp
qed

text \<open>
  C9.  The weekly request with years \<^verbatim>\<open>[2020]\<close>, weeks \<^verbatim>\<open>[1, 2]\<close> and season type
  \<^verbatim>\<open>'all'\<close>, when both tables of every page have a column labelled \<^verbatim>\<open>season_type\<close>.
  After the side-by-side bind the label stands on two columns, so the loop of line 124
  runs over the two column labels, not over the season codes, and no label equals 2:
  the rows of the regular season pages (season code 2) are written as \<^verbatim>\<open>'postseason'\<close>
  like those of the postseason pages.
\<close>

theorem regular_rows_stamped_postseason:
  "weekly_page (\<lambda>url. Inr twice_labelled_page) (AInt 2) (AInt 2020) (AInt 1) ([], world0)
     = (None,
        [DataFrame [''NAME'', ''season_type'', ''QBR'', ''season_type'', ''year'']
           [[AStr ''Aaron Rodgers'', AStr ''postseason'', AInt 84, AStr ''postseason'', AInt 2020],
            [AStr ''Tom Brady'', AStr ''postseason'', AInt 72, AStr ''postseason'', AInt 2020]]],
        \<lparr>out = [],
         requests =
           [''https://www.espn.com/nfl/qbr/_/view/weekly/season/2020/seasontype/2/week/1'']\<rparr>) \<and>
   load_qbr (\<lambda>url. Inr twice_labelled_page)
      (Qbr_init (PList [AInt 2020]) (PList [AInt 1, AInt 2]) ''all'' ''weekly'') world0
     = (Inr (Frame
          (DataFrame [''NAME'', ''season_type'', ''QBR'', ''season_type'', ''year'']
             [[AStr ''Aaron Rodgers'', AStr ''postseason'', AInt 84, AStr ''postseason'', AInt 2020],
              [AStr ''Tom Brady'', AStr ''postseason'', AInt 72, AStr ''postseason'', AInt 2020],
              [AStr ''Aaron Rodgers'', AStr ''postseason'', AInt 84, AStr ''postseason'', AInt 2020],
              [AStr ''Tom Brady'', AStr ''postseason'', AInt 72, AStr ''postseason'', AInt 2020],
              [AStr ''Aaron Rodgers'', AStr ''postseason'', AInt 84, AStr ''postseason'', AInt 2020],
              [AStr ''Tom Brady'', AStr ''postseason'', AInt 72, AStr ''postseason'', AInt 2020],
              [AStr ''Aaron Rodgers'', AStr ''postseason'', AInt 84, AStr ''postseason'', AInt 2020],
              [AStr ''Tom Brady'', AStr ''postseason'', AInt 72, AStr ''postseason'', AInt 2020]])),
        \<lparr>years = PList [AInt 2020], weeks = PList [AInt 1, AInt 2],
         season_type = PList [AInt 2, AInt 3], stat_type = ''weekly''\<rparr>,
        \<lparr>out = [],
         requests =
           [''https://www.espn.com/nfl/qbr/_/view/weekly/season/2020/seasontype/2/week/1'',
            ''https://www.espn.com/nfl/qbr/_/view/weekly/season/2020/seasontype/2/week/2'',
            ''https://www.espn.com/nfl/qbr/_/view/weekly/season/2020/seasontype/3/week/1'',
            ''https://www.espn.com/nfl/qbr/_/view/weekly/season/2020/seasontype/3/week/2'']\<rparr>)"
  by (simp add: load_eval py_string_eval url_eval frame_eval)

section \<open>The addresses that are requested\<close>

lemma digit_of_char: "d < 10 \<Longrightarrow> of_char (char_of (48 + d :: nat)) = (48 + d :: nat)"
  by simp

lemma digit_not_slash: "d < 10 \<Longrightarrow> char_of (48 + d :: nat) \<noteq> CHR ''/''"
proof
  assume d: "d < 10" and e: "char_of (48 + d) = CHR ''/''"
  have "(of_char (char_of (48 + d)) :: nat) = of_char (CHR ''/'')" by (simp only: e)
  with d show False by simp
qed

lemma digit_four: "d < 10 \<Longrightarrow> char_of (48 + d :: nat) = CHR ''4'' \<Longrightarrow> d = 4"
proof -
  assume d: "d < 10" and e: "char_of (48 + d) = CHR ''4''"
  have "(of_char (char_of (48 + d)) :: nat) = of_char (CHR ''4'')" by (simp only: e)
  with d show "d = 4" by simp
qed

lemma str_nat_no_slash: "CHR ''/'' \<notin> set (str_nat n)"
proof (induction n rule: str_nat.induct)
  case (1 n)
  show ?case
  proof (cases "n < 10")
    case True
    then show ?thesis by (subst str_nat.simps) (simp add: digit_not_slash [THEN not_sym])
  next
    case False
    have "n mod 10 < 10" by simp
    then have "char_of (48 + n mod 10) \<noteq> CHR ''/''" by (rule digit_not_slash)
    with False 1 show ?thesis by (subst str_nat.simps) auto
  qed
qed

lemma str_nat_not_Nil: "str_nat n \<noteq> []"
  by (subst str_nat.simps) simp

lemma str_nat_four: "str_nat n = ''4'' \<Longrightarrow> n = 4"
proof -
  assume e: "str_nat n = ''4''"
  have small: "n < 10"
  proof (rule ccontr)
    assume "\<not> n < 10"
    then have "str_nat n = str_nat (n div 10) @ [char_of (48 + n mod 10)]"
      by (subst str_nat.simps) simp
    with e have "str_nat (n div 10) = []" by simp
    then show False by (simp add: str_nat_not_Nil)
  qed
  then have "str_nat n = [char_of (48 + n)]" by (subst str_nat.simps) simp
  with e have "char_of (48 + n) = CHR ''4''" by simp
  with small show ?thesis by (rule digit_four)
qed

lemma str_int_no_slash: "CHR ''/'' \<notin> set (str_int i)"
  by (simp add: str_int_def str_nat_no_slash)

lemma str_int_four: "str_int i = ''4'' \<Longrightarrow> i = 4"
proof (cases "i < 0")
  case True
  assume "str_int i = ''4''"
  with True show ?thesis by (simp add: str_int_def)
next
  case False
  assume "str_int i = ''4''"
  with False have "str_nat (nat i) = ''4''" by (simp add: str_int_def)
  then have "nat i = 4" by (rule str_nat_four)
  with False show ?thesis by simp
qed

lemma py_str_int_no_slash: "isinstance_int k \<Longrightarrow> CHR ''/'' \<notin> set (py_str k)"
  by (cases k) (simp_all add: str_int_no_slash)

lemma py_str_four: "isinstance_int k \<Longrightarrow> py_str k = ''4'' \<Longrightarrow> py_eq_int k 4"
  by (cases k) (auto dest: str_int_four split: if_splits)

lemma first_segment:
  "c \<notin> set a \<Longrightarrow> c \<notin> set b \<Longrightarrow> a @ c # x = b @ c # z \<Longrightarrow> a = b \<and> x = z"
proof (induction a arbitrary: b)
  case Nil
  then show ?case by (cases b) auto
next
  case (Cons h a)
  then show ?case by (cases b) auto
qed

lemma last_segment:
  assumes "c \<notin> set a" and "c \<notin> set b" and "x @ c # a = z @ c # b"
  shows "a = b \<and> x = z"
proof -
  from assms(3) have "rev (x @ c # a) = rev (z @ c # b)" by simp
  then have "rev a @ c # rev x = rev b @ c # rev z" by simp
  moreover from assms(1,2) have "c \<notin> set (rev a)" "c \<notin> set (rev b)" by simp_all
  ultimately have "rev a = rev b \<and> rev x = rev z" by (rule first_segment [rotated 2])
  then show ?thesis by simp
qed

lemma weekly_url_not_post4:
  assumes s: "s = AInt 2 \<or> s = AInt 3"
      and k: "isinstance_int k"
      and n: "\<not> (py_eq_int s 3 \<and> py_eq_int k 4)"
  shows "\<not> suffix ''/seasontype/3/week/4'' (weekly_url y s k)"
proof
  assume "suffix ''/seasontype/3/week/4'' (weekly_url y s k)"
  then obtain p where e: "weekly_url y s k = p @ ''/seasontype/3/week/4''"
    by (auto simp: suffix_def)
  let ?A = "''https://www.espn.com/nfl/qbr/_/view/weekly/season/'' @ py_str y @ ''/seasontype/'' @ py_str s"
  have "(?A @ ''/week'') @ CHR ''/'' # py_str k = (p @ ''/seasontype/3/week'') @ CHR ''/'' # ''4''"
    using e by (simp add: weekly_url_def)
  moreover have "CHR ''/'' \<notin> set (py_str k)" using k by (rule py_str_int_no_slash)
  moreover have "CHR ''/'' \<notin> set ''4''" by simp
  ultimately have k4: "py_str k = ''4''" and a: "?A @ ''/week'' = p @ ''/seasontype/3/week''"
    using last_segment [of "CHR ''/''" "py_str k" "''4''" "?A @ ''/week''" "p @ ''/seasontype/3/week''"]
    by blast+
  from a have "?A = p @ ''/seasontype/3''" by simp
  then have "(''https://www.espn.com/nfl/qbr/_/view/weekly/season/'' @ py_str y @ ''/seasontype'')
                @ CHR ''/'' # py_str s = (p @ ''/seasontype'') @ CHR ''/'' # ''3''"
    by simp
  moreover have "CHR ''/'' \<notin> set (py_str s)"
    using s by (auto simp: str_int_no_slash)
  moreover have "CHR ''/'' \<notin> set ''3''" by simp
  ultimately have s3: "py_str s = ''3''"
    using last_segment [of "CHR ''/''" "py_str s" "''3''"
        "''https://www.espn.com/nfl/qbr/_/view/weekly/season/'' @ py_str y @ ''/seasontype''"
        "p @ ''/seasontype''"]
    by blast
  have "py_str (AInt 2) = ''2''" by (simp add: url_eval)
  with s s3 have "s = AInt 3" by auto
  moreover from k k4 have "py_eq_int k 4" by (rule py_str_four)
  ultimately show False using n by simp
qed

lemma leaders_url_not_post4:
  assumes s: "s = AInt 2 \<or> s = AInt 3"
  shows "\<not> suffix ''/seasontype/3/week/4'' (leaders_url y s)"
proof
  assume "suffix ''/seasontype/3/week/4'' (leaders_url y s)"
  then obtain p where e: "leaders_url y s = p @ ''/seasontype/3/week/4''"
    by (auto simp: suffix_def)
  then have "last (leaders_url y s) = CHR ''4''" by simp
  moreover have "py_str (AInt 2) = ''2''" "py_str (AInt 3) = ''3''" by (simp_all add: url_eval)
  ultimately show False using s by (auto simp: leaders_url_def)
qed


lemma print_requests: "requests (print s w) = requests w"
  by (simp add: print_def)

lemma weekly_page_requests:
  assumes "weekly_page fetch s y k (df, w) = (r, df', w')"
      and "list_all G (requests w)"
      and "\<not> (py_eq_int s 3 \<and> py_eq_int k 4) \<Longrightarrow> G (weekly_url y s k)"
  shows "list_all G (requests w')"
proof (cases "py_eq_int s 3 \<and> py_eq_int k 4")
  case True
  with assms(1,2) show ?thesis by (simp add: weekly_page_def)
next
  case False
  with assms(1) have "requests w' = requests w @ [weekly_url y s k]"
    by (auto simp: weekly_page_def read_html_def Let_def split: sum.splits)
  with assms(2) assms(3) [OF False] show ?thesis by simp
qed

lemma for_week_requests:
  assumes "for_week fetch s y ks (df, w) = (r, df', w')"
      and "list_all G (requests w)"
      and "\<And>k. k \<in> set ks \<Longrightarrow> \<not> (py_eq_int s 3 \<and> py_eq_int k 4) \<Longrightarrow> G (weekly_url y s k)"
  shows "list_all G (requests w')"
  using assms
proof (induction ks arbitrary: df w)
  case Nil
  then show ?case by simp
next
  case (Cons k ks)
  obtain r1 df1 w1 where p: "weekly_page fetch s y k (df, w) = (r1, df1, w1)"
    by (cases "weekly_page fetch s y k (df, w)") auto
  have a: "list_all G (requests w1)"
    using p Cons.prems(2) by (rule weekly_page_requests) (rule Cons.prems(3), simp_all)
  show ?case
  proof (cases r1)
    case None
    with Cons.prems(1) p have "for_week fetch s y ks (df1, w1) = (r, df', w')" by simp
    then show ?thesis using a by (rule Cons.IH) (rule Cons.prems(3), simp_all)
  next
    case (Some e)
    with Cons.prems(1) p a show ?thesis by simp
  qed
qed

lemma for_year_requests:
  assumes "for_year fetch s wks ys (df, w) = (r, df', w')"
      and "list_all G (requests w)"
      and "\<And>y k ks. y \<in> set ys \<Longrightarrow> py_iter wks = Inr ks \<Longrightarrow> k \<in> set ks \<Longrightarrow>
             \<not> (py_eq_int s 3 \<and> py_eq_int k 4) \<Longrightarrow> G (weekly_url y s k)"
  shows "list_all G (requests w')"
  using assms
proof (induction ys arbitrary: df w)
  case Nil
  then show ?case by simp
next
  case (Cons y ys)
  show ?case
  proof (cases "py_iter wks")
    case (Inl e)
    with Cons.prems(1,2) show ?thesis by simp
  next
    case (Inr ks)
    obtain r1 df1 w1 where p: "for_week fetch s y ks (df, w) = (r1, df1, w1)"
      by (cases "for_week fetch s y ks (df, w)") auto
    have a: "list_all G (requests w1)"
      using p Cons.prems(2) by (rule for_week_requests) (rule Cons.prems(3) [OF _ Inr], simp_all)
    show ?thesis
    proof (cases r1)
      case None
      with Cons.prems(1) p Inr have "for_year fetch s wks ys (df1, w1) = (r, df', w')" by simp
      then show ?thesis using a by (rule Cons.IH) (rule Cons.prems(3), simp_all)
    next
      case (Some e)
      with Cons.prems(1) p a Inr show ?thesis by simp
    qed
  qed
qed

lemma for_season_id_requests:
  assumes "for_season_id fetch yrs wks ss (df, w) = (r, df', w')"
      and "list_all G (requests w)"
      and "\<And>s y k ys ks. s \<in> set ss \<Longrightarrow> py_iter yrs = Inr ys \<Longrightarrow> y \<in> set ys \<Longrightarrow>
             py_iter wks = Inr ks \<Longrightarrow> k \<in> set ks \<Longrightarrow>
             \<not> (py_eq_int s 3 \<and> py_eq_int k 4) \<Longrightarrow> G (weekly_url y s k)"
  shows "list_all G (requests w')"
  using assms
proof (induction ss arbitrary: df w)
  case Nil
  then show ?case by simp
next
  case (Cons s ss)
  show ?case
  proof (cases "py_iter yrs")
    case (Inl e)
    with Cons.prems(1,2) show ?thesis by simp
  next
    case (Inr ys)
    obtain r1 df1 w1 where p: "for_year fetch s wks ys (df, w) = (r1, df1, w1)"
      by (cases "for_year fetch s wks ys (df, w)") auto
    have a: "list_all G (requests w1)"
      using p Cons.prems(2) by (rule for_year_requests) (rule Cons.prems(3) [OF _ Inr], simp_all)
    show ?thesis
    proof (cases r1)
      case None
      with Cons.prems(1) p Inr have "for_season_id fetch yrs wks ss (df1, w1) = (r, df', w')"
        by simp
      then show ?thesis using a by (rule Cons.IH) (rule Cons.prems(3), simp_all)
    next
      case (Some e)
      with Cons.prems(1) p a Inr show ?thesis by simp
    qed
  qed
qed

lemma row_bind_requests: "requests (snd (row_bind df w)) = requests w"
  by (simp add: row_bind_def print_requests split: sum.splits)

lemma load_weekly_qbr_requests:
  assumes "list_all G (requests w)"
      and "\<And>s y k ss ys ks. py_iter stype = Inr ss \<Longrightarrow> s \<in> set ss \<Longrightarrow>
             py_iter yrs = Inr ys \<Longrightarrow> y \<in> set ys \<Longrightarrow> py_iter wks = Inr ks \<Longrightarrow> k \<in> set ks \<Longrightarrow>
             \<not> (py_eq_int s 3 \<and> py_eq_int k 4) \<Longrightarrow> G (weekly_url y s k)"
  shows "list_all G (requests (snd (load_weekly_qbr fetch yrs wks stype w)))"
proof -
  obtain r df w1 where l: "weekly_loops fetch yrs wks stype w = (r, df, w1)"
    by (cases "weekly_loops fetch yrs wks stype w") auto
  have a: "list_all G (requests w1)"
  proof (cases "py_iter stype")
    case (Inl e)
    with l assms(1) show ?thesis by (simp add: weekly_loops_def)
  next
    case (Inr ss)
    with l have "for_season_id fetch yrs wks ss ([], w) = (r, df, w1)"
      by (simp add: weekly_loops_def)
    then show ?thesis using assms(1)
      by (rule for_season_id_requests) (rule assms(2) [OF Inr], simp_all)
  qed
  show ?thesis
    by (cases r) (simp_all add: load_weekly_qbr_def l row_bind_requests print_requests a)
qed


lemma leaders_page_requests:
  assumes "leaders_page fetch s y (df, w) = (r, df', w')"
      and "list_all G (requests w)"
      and "G (leaders_url y s)"
  shows "list_all G (requests w')"
proof -
  from assms(1) have "requests w' = requests w @ [leaders_url y s]"
    by (auto simp: leaders_page_def read_html_def split: sum.splits)
  with assms(2,3) show ?thesis by simp
qed

lemma leaders_for_year_requests:
  assumes "leaders_for_year fetch s ys (df, w) = (r, df', w')"
      and "list_all G (requests w)"
      and "\<And>y. y \<in> set ys \<Longrightarrow> G (leaders_url y s)"
  shows "list_all G (requests w')"
  using assms
proof (induction ys arbitrary: df w)
  case Nil
  then show ?case by simp
next
  case (Cons y ys)
  obtain r1 df1 w1 where p: "leaders_page fetch s y (df, w) = (r1, df1, w1)"
    by (cases "leaders_page fetch s y (df, w)") auto
  have a: "list_all G (requests w1)"
    using p Cons.prems(2) by (rule leaders_page_requests) (rule Cons.prems(3), simp)
  show ?case
  proof (cases r1)
    case None
    with Cons.prems(1) p have "leaders_for_year fetch s ys (df1, w1) = (r, df', w')" by simp
    then show ?thesis using a by (rule Cons.IH) (rule Cons.prems(3), simp)
  next
    case (Some e)
    with Cons.prems(1) p a show ?thesis by simp
  qed
qed

lemma leaders_for_season_id_requests:
  assumes "leaders_for_season_id fetch yrs ss (df, w) = (r, df', w')"
      and "list_all G (requests w)"
      and "\<And>s y. s \<in> set ss \<Longrightarrow> G (leaders_url y s)"
  shows "list_all G (requests w')"
  using assms
proof (induction ss arbitrary: df w)
  case Nil
  then show ?case by simp
next
  case (Cons s ss)
  show ?case
  proof (cases "py_iter yrs")
    case (Inl e)
    with Cons.prems(1,2) show ?thesis by simp
  next
    case (Inr ys)
    obtain r1 df1 w1 where p: "leaders_for_year fetch s ys (df, w) = (r1, df1, w1)"
      by (cases "leaders_for_year fetch s ys (df, w)") auto
    have a: "list_all G (requests w1)"
      using p Cons.prems(2) by (rule leaders_for_year_requests) (rule Cons.prems(3), simp)
    show ?thesis
    proof (cases r1)
      case None
      with Cons.prems(1) p Inr have "leaders_for_season_id fetch yrs ss (df1, w1) = (r, df', w')"
        by simp
      then show ?thesis using a by (rule Cons.IH) (rule Cons.prems(3), simp)
    next
      case (Some e)
      with Cons.prems(1) p a Inr show ?thesis by simp
    qed
  qed
qed

lemma load_season_leaders_qbr_requests:
  assumes "list_all G (requests w)"
      and "\<And>s y ss. py_iter stype = Inr ss \<Longrightarrow> s \<in> set ss \<Longrightarrow> G (leaders_url y s)"
  shows "list_all G (requests (snd (load_season_leaders_qbr fetch yrs stype w)))"
proof -
  obtain r df w1 where l: "leaders_loops fetch yrs stype w = (r, df, w1)"
    by (cases "leaders_loops fetch yrs stype w") auto
  have a: "list_all G (requests w1)"
  proof (cases "py_iter stype")
    case (Inl e)
    with l assms(1) show ?thesis by (simp add: leaders_loops_def)
  next
    case (Inr ss)
    with l have "leaders_for_season_id fetch yrs ss ([], w) = (r, df, w1)"
      by (simp add: leaders_loops_def)
    then show ?thesis using assms(1)
      by (rule leaders_for_season_id_requests) (rule assms(2) [OF Inr], simp)
  qed
  show ?thesis
    by (cases r) (simp_all add: load_season_leaders_qbr_def l row_bind_requests print_requests a)
qed

lemma convert_to_list_iter:
  assumes "py_iter (convert_to_list v) = Inr ks"
  shows "list_all isinstance_int ks"
proof (cases v)
  case (Atom a)
  with assms show ?thesis by (cases "isinstance_int a") auto
next
  case (PList xs)
  show ?thesis
  proof (cases "list_all isinstance_int xs")
    case True
    with assms PList show ?thesis by (simp add: for_num_all_int)
  next
    case False
    with assms PList show ?thesis by (simp add: for_num_some_bad)
  qed
qed

lemma convert_season_identifiers_iter:
  assumes "py_iter (fst (convert_season_identifiers self x w)) = Inr ss" and "s \<in> set ss"
  shows "s = AInt 2 \<or> s = AInt 3"
  using assms by (auto simp: convert_season_identifiers_def split: if_splits)

lemma weekly_page_skip: "weekly_page fetch (AInt 3) y (AInt 4) st = (None, st)"
  by (simp add: weekly_page_def split: prod.splits)

lemma for_week_skip:
  "for_week fetch (AInt 3) y (pre @ AInt 4 # post) st = for_week fetch (AInt 3) y (pre @ post) st"
proof (induction pre arbitrary: st)
  case Nil
  show ?case by (simp add: weekly_page_skip)
next
  case (Cons k pre)
  obtain r1 st1 where p: "weekly_page fetch (AInt 3) y k st = (r1, st1)"
    by (cases "weekly_page fetch (AInt 3) y k st") auto
  show ?case by (cases r1) (simp_all add: p Cons.IH)
qed

lemma load_qbr_requests:
  assumes "list_all (\<lambda>u. \<not> suffix ''/seasontype/3/week/4'' u) (requests w)"
  shows "list_all (\<lambda>u. \<not> suffix ''/seasontype/3/week/4'' u)
           (requests (snd (snd (load_qbr fetch self w))))"
proof -
  let ?G = "\<lambda>u. \<not> suffix ''/seasontype/3/week/4'' u"
  obtain ids w0 where c: "convert_season_identifiers self (season_type self) w = (ids, w0)"
    by (cases "convert_season_identifiers self (season_type self) w") auto
  have ids: "\<And>ss s. py_iter ids = Inr ss \<Longrightarrow> s \<in> set ss \<Longrightarrow> s = AInt 2 \<or> s = AInt 3"
    using convert_season_identifiers_iter [of self "season_type self" w] c by simp
  have w0: "list_all ?G (requests w0)"
    using c assms by (auto simp: convert_season_identifiers_def print_requests split: if_splits)
  have wk: "list_all ?G (requests (snd (load_weekly_qbr fetch (convert_to_list (years self))
                (convert_to_list (weeks self)) ids w0)))"
    using w0
  proof (rule load_weekly_qbr_requests)
    fix s y k ss ys ks
    assume "py_iter ids = Inr ss" "s \<in> set ss"
       and "py_iter (convert_to_list (weeks self)) = Inr ks" "k \<in> set ks"
       and n: "\<not> (py_eq_int s 3 \<and> py_eq_int k 4)"
    then have "s = AInt 2 \<or> s = AInt 3" and "isinstance_int k"
      using ids convert_to_list_iter [of "weeks self" ks] by (auto simp: list_all_iff)
    then show "\<not> suffix ''/seasontype/3/week/4'' (weekly_url y s k)"
      using n by (rule weekly_url_not_post4)
  qed
  have ld: "list_all ?G (requests (snd (load_season_leaders_qbr fetch (convert_to_list (years self))
                ids w0)))"
    using w0
  proof (rule load_season_leaders_qbr_requests)
    fix s y ss
    assume "py_iter ids = Inr ss" "s \<in> set ss"
    then have "s = AInt 2 \<or> s = AInt 3" using ids by blast
    then show "\<not> suffix ''/seasontype/3/week/4'' (leaders_url y s)"
      by (rule leaders_url_not_post4)
  qed
  show ?thesis
    using wk ld w0
    by (auto simp: load_qbr_def c Let_def print_requests split: prod.splits)
qed

text \<open>
  C7.  Whatever object \<^verbatim>\<open>load_qbr\<close> is called on and whatever the pages hold, no
  address requested by the call is the weekly address of season code 3 and week 4, for
  any year.  The loop body leaves the state as it is on such a triple: nothing is
  requested, printed or collected, and the other weeks of the same call are visited as
  if week 4 had not been asked for.
\<close>

theorem postseason_week4_skipped:
  assumes "load_qbr fetch self w = (r, self1, w1)"
  shows "(\<exists>qs. requests w1 = requests w @ qs \<and> weekly_url year (AInt 3) (AInt 4) \<notin> set qs) \<and>
         weekly_page fetch (AInt 3) y (AInt 4) st = (None, st) \<and>
         for_week fetch (AInt 3) y (pre @ AInt 4 # post) st
           = for_week fetch (AInt 3) y (pre @ post) st"
proof -
  obtain r0 self0 d where z: "load_qbr fetch self world0 = (r0, self0, d)"
    by (cases "load_qbr fetch self world0") auto
  have "list_all (\<lambda>u. \<not> suffix ''/seasontype/3/week/4'' u) (requests world0)"
    by (simp add: world0_def)
  then have "list_all (\<lambda>u. \<not> suffix ''/seasontype/3/week/4'' u)
           (requests (snd (snd (load_qbr fetch self world0))))"
    by (rule load_qbr_requests)
  then have d: "list_all (\<lambda>u. \<not> suffix ''/seasontype/3/week/4'' u) (requests d)"
    by (simp add: z)
  have "suffix ''/seasontype/3/week/4'' (weekly_url year (AInt 3) (AInt 4))"
    by (simp add: weekly_url_def suffix_def url_eval)
  with d have "weekly_url year (AInt 3) (AInt 4) \<notin> set (requests d)"
    by (auto simp: list_all_iff)
  moreover have "requests w1 = requests w @ requests d"
    using load_qbr_from_world0 [of fetch self w] assms z by (auto simp: extend_def)
  ultimately show ?thesis by (simp add: weekly_page_skip for_week_skip)
qed

theorem postseason_week4_skipped_witness:
  "load_qbr (\<lambda>url. Inr sample_page)
      (Qbr_init (Atom (AInt 2020)) (PList [AInt 3, AInt 4, AInt 5]) ''postseason'' ''weekly'') world0
     = (Inr (Frame (DataFrame [''NAME'', ''QBR'', ''year'', ''season_type'']
          [[AStr ''Aaron Rodgers'', AInt 84, AInt 2020, AStr ''postseason''],
           [AStr ''Aaron Rodgers'', AInt 84, AInt 2020, AStr ''postseason'']])),
        \<lparr>years = PList [AInt 2020], weeks = PList [AInt 3, AInt 4, AInt 5],
         season_type = PList [AInt 3], stat_type = ''weekly''\<rparr>,
        \<lparr>out = [],
         requests =
           [''https://www.espn.com/nfl/qbr/_/view/weekly/season/2020/seasontype/3/week/3'',
            ''https://www.espn.com/nfl/qbr/_/view/weekly/season/2020/seasontype/3/week/5'']\<rparr>) \<and>
   ''https://www.espn.com/nfl/qbr/_/view/weekly/season/2020/seasontype/3/week/4''
     \<notin> set [''https://www.espn.com/nfl/qbr/_/view/weekly/season/2020/seasontype/3/week/3'',
            ''https://www.espn.com/nfl/qbr/_/view/weekly/season/2020/seasontype/3/week/5'']"
proof -
  have e: "load_qbr (\<lambda>url. Inr sample_page)
      (Qbr_init (Atom (AInt 2020)) (PList [AInt 3, AInt 4, AInt 5]) ''postseason'' ''weekly'') world0
     = (Inr (Frame (DataFrame [''NAME'', ''QBR'', ''year'', ''season_type'']
          [[AStr ''Aaron Rodgers'', AInt 84, AInt 2020, AStr ''postseason''],
           [AStr ''Aaron Rodgers'', AInt 84, AInt 2020, AStr ''postseason'']])),
        \<lparr>years = PList [AInt 2020], weeks = PList [AInt 3, AInt 4, AInt 5],
         season_type = PList [AInt 3], stat_type = ''weekly''\<rparr>,
        \<lparr>out = [],
         requests =
           [''https://www.espn.com/nfl/qbr/_/view/weekly/season/2020/seasontype/3/week/3'',
            ''https://www.espn.com/nfl/qbr/_/view/weekly/season/2020/seasontype/3/week/5'']\<rparr>)"
    by (simp add: load_eval py_string_eval url_eval frame_eval)
  have u: "weekly_url (AInt 2020) (AInt 3) (AInt 4)
     = ''https://www.espn.com/nfl/qbr/_/view/weekly/season/2020/seasontype/3/week/4''"
    by (simp add: url_eval)
  from postseason_week4_skipped [OF e, of "AInt 2020"] e u show ?thesis
    by (simp add: world0_def)
qed


end
